theory Spec2Isabelle
  imports Main "HOL-Library.AList"
begin

chapter \<open>The model\<close>

section \<open>JavaScript values\<close>

text \<open>
  Values read from the configuration module and from the settings file. Numbers carry an
  integer payload: the program only ever tests a number for being zero.
\<close>

datatype json =
    JNull
  | JBool bool
  | JNum int
  | JStr string
  | JArr "json list"
  | JObj "(string \<times> json) list"

text \<open>JavaScript's conversion to a boolean, as used by \<open>if (v)\<close>, \<open>!v\<close> and \<open>v || d\<close>.\<close>

fun truthy :: "json \<Rightarrow> bool" where
  "truthy JNull = False"
| "truthy (JBool b) = b"
| "truthy (JNum n) = (n \<noteq> 0)"
| "truthy (JStr s) = (s \<noteq> [])"
| "truthy (JArr _) = True"
| "truthy (JObj _) = True"

text \<open>
  An optional string property: \<open>None\<close> is \<open>undefined\<close>. It is truthy when it is present and
  not the empty string.
\<close>

definition truthy_str :: "string option \<Rightarrow> bool" where
  "truthy_str v = (case v of None \<Rightarrow> False | Some s \<Rightarrow> s \<noteq> [])"

text \<open>\<open>v || d\<close> for an optional string \<open>v\<close>.\<close>

definition or_default :: "string option \<Rightarrow> string \<Rightarrow> string" where
  "or_default v d = (case v of None \<Rightarrow> d | Some s \<Rightarrow> if s \<noteq> [] then s else d)"

text \<open>A number in a template string: its decimal digits.\<close>

definition digit_char :: "nat \<Rightarrow> char" where
  "digit_char d = ''0123456789'' ! (d mod 10)"

function show_nat :: "nat \<Rightarrow> string" where
  "show_nat n = (if n < 10 then [digit_char n] else show_nat (n div 10) @ [digit_char n])"
  by pat_completeness auto
termination
  by (relation "measure id") auto

text \<open>\<open>Array.prototype.join\<close> with a separator.\<close>

fun join :: "string \<Rightarrow> string list \<Rightarrow> string" where
  "join sep [] = []"
| "join sep [x] = x"
| "join sep (x # y # ys) = x @ sep @ join sep (y # ys)"

text \<open>
  \<open>String.prototype.indexOf\<close>: the position of the first occurrence of \<open>t\<close> in \<open>s\<close>, and
  \<open>-1\<close> when there is none.
\<close>

fun indexOf_from :: "nat \<Rightarrow> string \<Rightarrow> string \<Rightarrow> int" where
  "indexOf_from i [] t = (if t = [] then int i else - 1)"
| "indexOf_from i (c # cs) t =
     (if take (length t) (c # cs) = t then int i else indexOf_from (Suc i) cs t)"

definition indexOf :: "string \<Rightarrow> string \<Rightarrow> int" where
  "indexOf s t = indexOf_from 0 s t"






section \<open>Configuration\<close>

text \<open>
  One entry of \<open>config.servers\<close>. A property that is absent is \<open>None\<close>; \<open>opts\<close> is the
  object of SSH options, with its own properties in order.
\<close>

record server_info =
  host :: "string option"
  username :: "string option"
  pem :: "string option"
  password :: "string option"
  opts :: "(string \<times> json) list option"

record meteor_config =
  meteor_path :: string

text \<open>
  The configuration object exported by \<open>mup.js\<close>, as far as the program reads it:
  \<^item> \<open>servers\<close>: the own properties of \<open>config.servers\<close>, in enumeration order (none when the
    section is absent);
  \<^item> \<open>meteor\<close>: the section \<open>config.meteor\<close>;
  \<^item> \<open>modules\<close>: for every property name \<open>m\<close> with a truthy \<open>config[m]\<close>, the own property
    names of \<open>config[m].servers\<close> in enumeration order (none when that reference is absent).
    A name \<open>m\<close> that \<open>config\<close> only inherits, such as \<open>constructor\<close>, has a truthy \<open>config[m]\<close>
    without \<open>servers\<close>; for the program that is as if \<open>m\<close> were absent.
  The lists \<open>servers\<close> and \<open>modules\<close> are in the order in which \<open>for ... in\<close> enumerates.
  The values under \<open>config.servers\<close> and under the \<open>servers\<close> of a module are objects of the
  configuration, none of them a function.
\<close>

record config =
  servers :: "(string \<times> server_info) list"
  meteor :: "meteor_config option"
  modules :: "(string \<times> string list) list"

text \<open>A session made by the session broker, \<open>nodemiral.session(host, auth, opts)\<close>.\<close>

record auth =
  auth_username :: "string option"
  auth_pem :: "string option"
  auth_password :: "string option"

record session =
  session_host :: "string option"
  session_auth :: auth
  session_ssh :: "(string \<times> json) list"

text \<open>
  The objects \<open>this.sessions\<close> and the mapping \<open>_pickSessions\<close> returns are plain objects made
  by \<open>{}\<close> and filled by assignment. A value held by such an object is a session, or what a
  read found along the prototype chain and the program copied: the member of
  \<open>Object.prototype\<close> of a given name (a function), or the property of a given name of a
  session object.
\<close>

datatype entry = Session session | Inherited string | Member session string

text \<open>
  Such an object: its own properties in the order of their creation, and its prototype,
  which is \<open>Object.prototype\<close> (\<open>None\<close>) until an assignment to \<open>__proto__\<close> makes it a session
  object. No own property is ever named \<open>__proto__\<close>, since an assignment does not create
  one. \<open>Object.prototype\<close> is as the language defines it. A session object is opaque; it is
  taken to have no setter and no read-only property, so that an assignment under another
  name creates an own property also after the prototype has become a session object.
\<close>

record session_dict =
  dict_entries :: "(string \<times> entry) list"
  dict_proto :: "session option"

definition empty_dict :: session_dict where
  "empty_dict = \<lparr> dict_entries = [], dict_proto = None \<rparr>"

text \<open>The names of the members of \<open>Object.prototype\<close>, the accessor \<open>__proto__\<close> apart.\<close>

definition Object_prototype_names :: "string list" where
  "Object_prototype_names =
     [''constructor'', ''__defineGetter__'', ''__defineSetter__'', ''hasOwnProperty'',
      ''__lookupGetter__'', ''__lookupSetter__'', ''isPrototypeOf'', ''propertyIsEnumerable'',
      ''toString'', ''valueOf'', ''toLocaleString'']"

section \<open>The environment\<close>

datatype fs_error = ENOENT | OtherFsError string

datatype require_error = MODULE_NOT_FOUND | OtherRequireError string

datatype js_error = TypeError string | SyntaxError string | FsException fs_error

text \<open>
  The host process: \<open>process.platform\<close> and \<open>process.env\<close>. A variable is looked up under
  the spelling the program uses.
\<close>

record process =
  platform :: string
  environ :: "(string \<times> string) list"

definition getenv :: "process \<Rightarrow> string \<Rightarrow> string option" where
  "getenv p k = map_of (environ p) k"

text \<open>
  Everything the program reaches outside itself: the file system, the module loader, the
  libraries and the helpers of the repository that are not part of the sources at hand
  (\<open>resolvePath\<close>, the validator of the whole configuration, the schema check of the
  servers section). An error that is printed carries its printed form. A session object
  is opaque: \<open>session_property s name\<close> says whether a read of the property \<open>name\<close> on the
  session object \<open>s\<close> gives a truthy value.
\<close>

record env =
  proc :: process
  readFileSync :: "string \<Rightarrow> fs_error + string"
  existsSync :: "string \<Rightarrow> bool"
  statSync :: "string \<Rightarrow> fs_error + unit"
  require_module :: "string \<Rightarrow> require_error + config"
  parseJson :: "string \<Rightarrow> string + json"
  JSON_stringify :: "json \<Rightarrow> string"
  regexp_test :: "string \<Rightarrow> string \<Rightarrow> string + bool"
  resolvePath :: "string list \<Rightarrow> string"
  path_dirname :: "string \<Rightarrow> string"
  path_join :: "string \<Rightarrow> string \<Rightarrow> string"
  validate_index :: "config \<Rightarrow> string list"
  chalk_red :: "string \<Rightarrow> string"
  session_property :: "session \<Rightarrow> string \<Rightarrow> bool"

section \<open>The build pipeline\<close>

record build_options =
  buildLocation :: string
  executable :: "string option"
  debug :: bool
  mobileSettings :: "json option"
  serverOnly :: bool
  server :: "string option"
  allowIncompatibleUpdate :: bool

text \<open>
  What \<open>buildMeteorApp\<close> hands to \<open>spawn(executable, args, options)\<close>; \<open>sp_forwarded\<close> says
  whether the child's output streams are piped on to the parent's.
\<close>

record spawn_call =
  sp_executable :: string
  sp_args :: "string list"
  sp_cwd :: string
  sp_env :: "(string \<times> string) list"
  sp_stdio :: string
  sp_forwarded :: bool

text \<open>
  What the build writes with \<open>console.log\<close>: a line of text, or the options object of the
  spawn call, which is printed as an object (the entry holds the call it belongs to).
\<close>

datatype log_entry = Text string | Options spawn_call

text \<open>
  The argument list built by the pushes of \<open>buildMeteorApp\<close>, before the platform test.
\<close>

definition buildArgs :: "(json \<Rightarrow> string) \<Rightarrow> string \<Rightarrow> build_options \<Rightarrow> string list" where
  "buildArgs stringify appPath buildOptions =
    (let args0 = [''build'', ''--directory'', buildLocation buildOptions,
                  ''--architecture'', ''os.linux.x86_64''];
         args1 = (if debug buildOptions then args0 @ [''--debug''] else args0);
         args2 = (case mobileSettings buildOptions of
                    None \<Rightarrow> args1
                  | Some ms \<Rightarrow>
                      if truthy ms then args1 @ [''--mobile-settings''] @ [stringify ms]
                      else args1);
         args3 = (if serverOnly buildOptions then args2 @ [''--server-only'']
                  else (case mobileSettings buildOptions of
                          None \<Rightarrow> args2 @ [''--mobile-settings''] @ [appPath @ ''/settings.json'']
                        | Some ms \<Rightarrow>
                            if \<not> truthy ms
                            then args2 @ [''--mobile-settings''] @ [appPath @ ''/settings.json'']
                            else args2));
         args4 = (case server buildOptions of
                    None \<Rightarrow> args3
                  | Some s \<Rightarrow> if s \<noteq> [] then args3 @ [''--server''] @ [s] else args3);
         args5 = (if allowIncompatibleUpdate buildOptions
                  then args4 @ [''--allow-incompatible-update''] else args4)
     in args5)"

text \<open>\<open>/^win/.test(process.platform)\<close>\<close>

definition isWin :: "process \<Rightarrow> bool" where
  "isWin p = (take 3 (platform p) = ''win'')"

definition buildMeteorApp_spawn :: "env \<Rightarrow> string \<Rightarrow> build_options \<Rightarrow> bool \<Rightarrow> spawn_call" where
  "buildMeteorApp_spawn e appPath buildOptions verbose =
    (let executable0 = or_default (executable buildOptions) ''meteor'';
         args = buildArgs (JSON_stringify e) appPath buildOptions;
         (executable1, args') =
           (if isWin (proc e)
            then (or_default (getenv (proc e) ''comspec'') ''cmd.exe'',
                  [''/c'', ''meteor''] @ args)
            else (executable0, args))
     in \<lparr> sp_executable = executable1,
          sp_args = args',
          sp_cwd = appPath,
          sp_env = AList.update ''METEOR_HEADLESS'' ''1'' (environ (proc e)),
          sp_stdio = (if verbose then ''inherit'' else ''pipe''),
          sp_forwarded = (\<not> verbose) \<rparr>)"

text \<open>The two lines \<open>buildMeteorApp\<close> writes to the debug log.\<close>

definition buildMeteorApp_log :: "string \<Rightarrow> spawn_call \<Rightarrow> string list" where
  "buildMeteorApp_log appPath call =
     [''Build Path: '' @ appPath,
      ''Build Command:  '' @ sp_executable call @ '' '' @ join '' '' (sp_args call)]"

section \<open>The archiver\<close>

text \<open>
  \<open>archiveIt\<close> wraps its callback with \<open>_.once\<close> and registers it with \<open>once\<close> on the two
  event sources. The state keeps the two registrations, the flag of \<open>_.once\<close>, the
  arguments the wrapped callback \<open>cb\<close> has been called with (\<open>None\<close>: no error), and what
  was printed. An \<open>error\<close> event that finds no listener is raised by the event emitter as an
  uncaught exception; no handler of the program runs then.
\<close>

datatype archive_event = OutputClose | ArchiveError string

record archive_state =
  bundlePath :: string
  sourceDir :: string
  entry_name :: string
  gzip_level :: nat
  close_listener :: bool
  error_listener :: bool
  once_called :: bool
  cb_calls :: "string option list"
  archive_console :: "string list"
  uncaught :: "string list"

definition archiveIt :: "env \<Rightarrow> string \<Rightarrow> archive_state" where
  "archiveIt e location =
     \<lparr> bundlePath = resolvePath e [location, ''bundle.tar.gz''],
       sourceDir = resolvePath e [location, ''bundle''],
       entry_name = ''bundle'',
       gzip_level = 9,
       close_listener = True,
       error_listener = True,
       once_called = False,
       cb_calls = [],
       archive_console = [],
       uncaught = [] \<rparr>"

text \<open>The function made by \<open>_.once(cb)\<close>, called with \<open>err\<close>.\<close>

definition once_callback :: "string option \<Rightarrow> archive_state \<Rightarrow> archive_state" where
  "once_callback err a =
     (if once_called a then a
      else a \<lparr> once_called := True, cb_calls := cb_calls a @ [err] \<rparr>)"

fun archive_step :: "archive_state \<Rightarrow> archive_event \<Rightarrow> archive_state" where
  "archive_step a OutputClose =
     (if close_listener a
      then once_callback None (a \<lparr> close_listener := False \<rparr>)
      else a)"
| "archive_step a (ArchiveError msg) =
     (if error_listener a
      then once_callback (Some msg)
             (a \<lparr> error_listener := False,
                  archive_console := archive_console a @ [''=> Archiving failed: '' @ msg] \<rparr>)
      else a \<lparr> uncaught := uncaught a @ [msg] \<rparr>)"

fun archive_run :: "archive_state \<Rightarrow> archive_event list \<Rightarrow> archive_state" where
  "archive_run a [] = a"
| "archive_run a (ev # evs) = archive_run (archive_step a ev) evs"

section \<open>buildApp\<close>

datatype promise = Pending | Resolved | Rejected string

text \<open>
  The events after \<open>buildApp\<close> has returned its promise: the child's \<open>error\<close> event, its
  \<open>close\<close> event with the exit code (\<open>None\<close> when a signal ended it), and an event of the
  archive started by the given call of \<open>archiveIt\<close>.
\<close>

datatype build_event =
    ChildError string
  | ChildClose "int option"
  | ArchiveEvent nat archive_event

record build_state =
  bs_spawned :: spawn_call
  bs_debug_log :: "string list"
  bs_promise :: promise
  bs_archives :: "archive_state list"
  bs_console :: "log_entry list"
  bs_exited :: "nat option"

text \<open>The callback \<open>buildApp\<close> passes to \<open>archiveIt\<close>; a settled promise stays as it is.\<close>

definition promise_callback :: "string option \<Rightarrow> promise \<Rightarrow> promise" where
  "promise_callback err p =
     (case p of
        Pending \<Rightarrow> (case err of Some msg \<Rightarrow> Rejected msg | None \<Rightarrow> Resolved)
      | _ \<Rightarrow> p)"

text \<open>
  \<open>buildApp\<close> up to the point where it returns the promise: \<open>Inl\<close> is \<open>process.exit(1)\<close>
  after the lines given.
\<close>

definition buildApp :: "env \<Rightarrow> string \<Rightarrow> build_options \<Rightarrow> bool \<Rightarrow> string list + build_state" where
  "buildApp e appPath buildOptions verbose =
     (case statSync e (resolvePath e [appPath]) of
        Inl ENOENT \<Rightarrow> Inl [resolvePath e [appPath] @ '' does not exist'']
      | Inl (OtherFsError printed) \<Rightarrow> Inl [printed]
      | Inr _ \<Rightarrow>
          (case statSync e (resolvePath e [appPath, ''.meteor/release'']) of
             Inl _ \<Rightarrow> Inl [resolvePath e [appPath] @ '' is not a meteor app'']
           | Inr _ \<Rightarrow>
               (let call = buildMeteorApp_spawn e appPath buildOptions verbose
                in Inr \<lparr> bs_spawned = call,
                         bs_debug_log = buildMeteorApp_log appPath call,
                         bs_promise = Pending,
                         bs_archives = [],
                         bs_console = [],
                         bs_exited = None \<rparr>)))"

text \<open>One event delivered to the handlers \<open>buildApp\<close> and \<open>buildMeteorApp\<close> registered.\<close>

fun build_step :: "env \<Rightarrow> build_options \<Rightarrow> build_state \<Rightarrow> build_event \<Rightarrow> build_state" where
  "build_step e buildOptions s ev =
     (if bs_exited s \<noteq> None then s
      else
        (case ev of
           ChildError printed \<Rightarrow>
             s \<lparr> bs_console := bs_console s @
                   [Options (bs_spawned s), Text printed,
                    Text ''This error usually happens when meteor is not installed.''] \<rparr>
         | ChildClose code \<Rightarrow>
             if code = Some 0
             then s \<lparr> bs_archives := bs_archives s @ [archiveIt e (buildLocation buildOptions)] \<rparr>
             else s \<lparr> bs_console := bs_console s @
                        [Text ''\<newline>=> Build Error. Check the logs printed above.''],
                      bs_exited := Some 1 \<rparr>
         | ArchiveEvent i aev \<Rightarrow>
             if i < length (bs_archives s)
             then (let a = bs_archives s ! i;
                       a' = archive_step a aev;
                       fired = drop (length (cb_calls a)) (cb_calls a');
                       printed = drop (length (archive_console a)) (archive_console a')
                   in s \<lparr> bs_archives := (bs_archives s)[i := a'],
                          bs_console := bs_console s @ map Text printed,
                          bs_promise := foldl (\<lambda>p err. promise_callback err p) (bs_promise s) fired \<rparr>)
             else s))"

fun build_run :: "env \<Rightarrow> build_options \<Rightarrow> build_state \<Rightarrow> build_event list \<Rightarrow> build_state" where
  "build_run e buildOptions s [] = s"
| "build_run e buildOptions s (ev # evs) =
     build_run e buildOptions (build_step e buildOptions s ev) evs"

section \<open>Validation of the servers section\<close>

record problem =
  message :: string
  path :: string

text \<open>
  Modelled from the spec: \<open>addLocation\<close> of the validation utilities, which are not part of
  the sources at hand. It prefixes the path of every problem with the section name, so
  that a problem on \<open>web1.pem\<close> of the servers section is reported at \<open>servers.web1.pem\<close>.
\<close>

definition addLocation :: "problem list \<Rightarrow> string \<Rightarrow> problem list" where
  "addLocation details location =
     map (\<lambda>d. d \<lparr> path := location @ ''.'' @ path d \<rparr>) details"

definition pub_message :: string where
  "pub_message =
     ''Needs to be a path to a private key. The file extension \".pub\" is used for public keys.''"

text \<open>The body of the \<open>forEach\<close> of \<open>validateServers\<close>: the problems pushed for one entry.\<close>

definition pub_details :: "string \<Rightarrow> server_info \<Rightarrow> problem list" where
  "pub_details key srv =
     (case pem srv of
        None \<Rightarrow> []
      | Some p \<Rightarrow>
          if p \<noteq> [] \<and> indexOf p ''.pub'' = int (length p) - 4
          then [\<lparr> message = pub_message, path = key @ ''.pem'' \<rparr>]
          else [])"

text \<open>
  \<open>validateServers\<close>. The parameter \<open>schema_details\<close> is the list of problems the schema
  check gives (\<open>combineErrorDetails\<close> of the result of \<open>joi.validate\<close>).
\<close>

definition validateServers ::
  "((string \<times> server_info) list \<Rightarrow> problem list) \<Rightarrow> (string \<times> server_info) list \<Rightarrow> problem list" where
  "validateServers schema_details srvs =
     addLocation
       (schema_details srvs @ concat (map (\<lambda>(key, srv). pub_details key srv) srvs))
       ''servers''"

text \<open>\<open>String.prototype.endsWith\<close>, for stating what the suffix rule is meant to detect.\<close>

definition endsWith :: "string \<Rightarrow> string \<Rightarrow> bool" where
  "endsWith s t = (length t \<le> length s \<and> drop (length s - length t) s = t)"

section \<open>The resolver: objects and the prototype chain\<close>

text \<open>
  An object of class \<open>MupAPI\<close>, or one made from such an object by \<open>Object.create\<close>. A field
  \<open>own_f\<close> is \<open>None\<close> when the object has no own property \<open>f\<close>; a read then goes on at the
  prototype \<open>proto\<close>. The value \<open>null\<close> of \<open>config\<close> and \<open>sessions\<close> is \<open>Some None\<close>, the value
  \<open>null\<close> of \<open>settings\<close> is \<open>JNull\<close>.
\<close>

record api_object =
  proto :: "nat option"
  own_base :: "string option"
  own_args :: "string list option"
  own_config :: "config option option"
  own_settings :: "json option"
  own_sessions :: "session_dict option option"
  own_configPath :: "string option option"
  own_settingsPath :: "string option option"
  own_verbose :: "bool option"

text \<open>
  The state of a run: the objects by address, the lines printed (with \<open>console.log\<close> or
  \<open>console.error\<close>, in order), and the paths handed to the file system or the module
  loader for reading, in order.
\<close>

record world =
  heap :: "api_object list"
  console :: "string list"
  reads :: "string list"

datatype 'a outcome = Return 'a world | Throw js_error world | Exit nat world

text \<open>
  A property read along the prototype chain, with the address of the object that owns the
  property. An object is made after its prototype, so the chain descends.
\<close>

function lookup_owner :: "api_object list \<Rightarrow> (api_object \<Rightarrow> 'a option) \<Rightarrow> nat \<Rightarrow> (nat \<times> 'a) option" where
  "lookup_owner h own r =
     (if r < length h
      then (case own (h ! r) of
              Some v \<Rightarrow> Some (r, v)
            | None \<Rightarrow>
                (case proto (h ! r) of
                   Some p \<Rightarrow> if p < r then lookup_owner h own p else None
                 | None \<Rightarrow> None))
      else None)"
  by pat_completeness auto
termination
  by (relation "measure (\<lambda>(h, own, r). r)") auto

definition lookup :: "api_object list \<Rightarrow> (api_object \<Rightarrow> 'a option) \<Rightarrow> nat \<Rightarrow> 'a option" where
  "lookup h own r = map_option snd (lookup_owner h own r)"

definition this_base :: "world \<Rightarrow> nat \<Rightarrow> string option" where
  "this_base w this = lookup (heap w) own_base this"

definition this_args :: "world \<Rightarrow> nat \<Rightarrow> string list option" where
  "this_args w this = lookup (heap w) own_args this"

definition this_verbose :: "world \<Rightarrow> nat \<Rightarrow> bool option" where
  "this_verbose w this = lookup (heap w) own_verbose this"

definition this_config :: "world \<Rightarrow> nat \<Rightarrow> config option" where
  "this_config w this = (case lookup (heap w) own_config this of Some (Some c) \<Rightarrow> Some c | _ \<Rightarrow> None)"

definition this_sessions :: "world \<Rightarrow> nat \<Rightarrow> session_dict option" where
  "this_sessions w this =
     (case lookup (heap w) own_sessions this of Some (Some ss) \<Rightarrow> Some ss | _ \<Rightarrow> None)"

definition this_settings :: "world \<Rightarrow> nat \<Rightarrow> json" where
  "this_settings w this = (case lookup (heap w) own_settings this of Some j \<Rightarrow> j | None \<Rightarrow> JNull)"

definition this_configPath :: "world \<Rightarrow> nat \<Rightarrow> string option" where
  "this_configPath w this =
     (case lookup (heap w) own_configPath this of Some (Some p) \<Rightarrow> Some p | _ \<Rightarrow> None)"

definition this_settingsPath :: "world \<Rightarrow> nat \<Rightarrow> string option" where
  "this_settingsPath w this =
     (case lookup (heap w) own_settingsPath this of Some (Some p) \<Rightarrow> Some p | _ \<Rightarrow> None)"

text \<open>An assignment \<open>this.f = v\<close>: it writes an own property of \<open>this\<close>.\<close>

definition assign :: "nat \<Rightarrow> (api_object \<Rightarrow> api_object) \<Rightarrow> world \<Rightarrow> world" where
  "assign this f w =
     (if this < length (heap w) then w \<lparr> heap := (heap w)[this := f (heap w ! this)] \<rparr> else w)"

definition print :: "string list \<Rightarrow> world \<Rightarrow> world" where
  "print ls w = w \<lparr> console := console w @ ls \<rparr>"

definition note_read :: "string \<Rightarrow> world \<Rightarrow> world" where
  "note_read p w = w \<lparr> reads := reads w @ [p] \<rparr>"

text \<open>The value of an optional string when it is truthy.\<close>

definition truthy_value :: "string option \<Rightarrow> string option" where
  "truthy_value v = (case v of None \<Rightarrow> None | Some s \<Rightarrow> if s \<noteq> [] then Some s else None)"

section \<open>The resolver: constructor and accessors\<close>

definition new_MupAPI ::
  "string \<Rightarrow> string list \<Rightarrow> string option \<Rightarrow> string option \<Rightarrow> bool \<Rightarrow> world \<Rightarrow> nat \<times> world" where
  "new_MupAPI base args configPath settingsPath verbose w =
     (length (heap w),
      w \<lparr> heap := heap w @
             [\<lparr> proto = None,
                own_base = Some base,
                own_args = Some args,
                own_config = Some None,
                own_settings = Some JNull,
                own_sessions = Some None,
                own_configPath = Some configPath,
                own_settingsPath = Some settingsPath,
                own_verbose = Some verbose \<rparr>] \<rparr>)"

definition getArgs :: "world \<Rightarrow> nat \<Rightarrow> string list option" where
  "getArgs w this = this_args w this"

definition optionEnabled :: "world \<Rightarrow> nat \<Rightarrow> string \<Rightarrow> bool" where
  "optionEnabled w this long =
     (case this_args w this of None \<Rightarrow> False | Some args \<Rightarrow> (''--'' @ long) \<in> set args)"

definition getBasePath :: "world \<Rightarrow> nat \<Rightarrow> string option" where
  "getBasePath w this = this_base w this"

definition getVerbose :: "world \<Rightarrow> nat \<Rightarrow> bool option" where
  "getVerbose w this = this_verbose w this"

section \<open>The resolver: loading the configuration and the settings\<close>

text \<open>The lines \<open>validateConfig\<close> prints for the configuration stored in \<open>this.config\<close>.\<close>

definition validateConfig :: "env \<Rightarrow> world \<Rightarrow> nat \<Rightarrow> string \<Rightarrow> world" where
  "validateConfig e w this configPath =
     (case this_config w this of
        None \<Rightarrow> w
      | Some c \<Rightarrow>
          (let problems = validate_index e c
           in if length problems > 0
              then (let plural = (if length problems > 1 then ''s'' else ''s'')
                    in print
                         ([''loaded config from '' @ configPath,
                           [],
                           chalk_red e (show_nat (length problems) @ '' Validation Error'' @ plural)]
                          @ map (\<lambda>p. chalk_red e (''  - '' @ p)) problems
                          @ [[],
                             ''Read the docs and view example configs at'',
                             ''  https://zodern.github.io/meteor-up/docs'',
                             []]) w)
              else w))"

text \<open>
  The file \<open>getConfig\<close> loads, and the state after \<open>this.base\<close> has been set where a
  configuration path was given. Without a base path \<open>path.join\<close> raises; that is \<open>None\<close>.
\<close>

definition config_file :: "env \<Rightarrow> world \<Rightarrow> nat \<Rightarrow> (string \<times> world) option" where
  "config_file e w this =
     (case truthy_value (this_configPath w this) of
        Some cp \<Rightarrow>
          Some (resolvePath e [cp],
                assign this (own_base_update (\<lambda>_. Some (path_dirname e cp))) w)
      | None \<Rightarrow>
          (case this_base w this of
             Some b \<Rightarrow> Some (path_join e b ''mup.js'', w)
           | None \<Rightarrow> None))"

definition getConfig :: "env \<Rightarrow> world \<Rightarrow> nat \<Rightarrow> config outcome" where
  "getConfig e w this =
     (case this_config w this of
        Some c \<Rightarrow> Return c w
      | None \<Rightarrow>
          (case config_file e w this of
             None \<Rightarrow> Throw (TypeError ''Path must be a string'') w
           | Some (filePath, w1) \<Rightarrow>
               (case require_module e filePath of
                  Inl MODULE_NOT_FOUND \<Rightarrow>
                    Exit 1 (print [''\"mup.js\" file not found. Run \"mup init\" first.'']
                              (note_read filePath w1))
                | Inl (OtherRequireError printed) \<Rightarrow>
                    Exit 1 (print [printed] (note_read filePath w1))
                | Inr c \<Rightarrow>
                    Return c
                      (validateConfig e
                         (assign this (own_config_update (\<lambda>_. Some (Some c)))
                            (note_read filePath w1))
                         this filePath))))"

definition settings_file :: "env \<Rightarrow> world \<Rightarrow> nat \<Rightarrow> string option" where
  "settings_file e w this =
     (case truthy_value (this_settingsPath w this) of
        Some sp \<Rightarrow> Some (resolvePath e [sp])
      | None \<Rightarrow>
          (case this_base w this of
             Some b \<Rightarrow> Some (path_join e b ''settings.json'')
           | None \<Rightarrow> None))"

definition getSettings :: "env \<Rightarrow> world \<Rightarrow> nat \<Rightarrow> json outcome" where
  "getSettings e w this =
     (if truthy (this_settings w this) then Return (this_settings w this) w
      else
        (case settings_file e w this of
           None \<Rightarrow> Throw (TypeError ''Path must be a string'') w
         | Some filePath \<Rightarrow>
             (case readFileSync e filePath of
                Inl err \<Rightarrow>
                  Exit 1 (print ([''Unable to load settings.json at '' @ filePath]
                                 @ (case err of ENOENT \<Rightarrow> [] | OtherFsError printed \<Rightarrow> [printed]))
                            (note_read filePath w))
              | Inr content \<Rightarrow>
                  (let w1 = assign this (own_settings_update (\<lambda>_. Some (JStr content)))
                              (note_read filePath w)
                   in case parseJson e content of
                        Inl msg \<Rightarrow> Exit 1 (print [''Error parsing settings file:'', msg] w1)
                      | Inr j \<Rightarrow> Return j (assign this (own_settings_update (\<lambda>_. Some j)) w1)))))"

section \<open>The resolver: sessions\<close>

text \<open>
  The body of the loop of \<open>_loadSessions\<close> for one server: either the lines printed before
  \<open>process.exit(1)\<close>, or the session made and the entry as the body leaves it (the SSH
  options of the session are the object \<open>info.opts\<close> itself where the entry has one, so the
  agent socket written into them is written into the entry).
\<close>

datatype server_load = Fatal "string list" | Loaded session server_info

definition agent_socket :: "env \<Rightarrow> string option" where
  "agent_socket e =
     (case truthy_value (getenv (proc e) ''SSH_AUTH_SOCK'') of
        Some sshAgent \<Rightarrow> if existsSync e sshAgent then Some sshAgent else None
      | None \<Rightarrow> None)"

definition loadServer :: "env \<Rightarrow> string \<Rightarrow> server_info \<Rightarrow> server_load" where
  "loadServer e name info =
     (let auth0 = \<lparr> auth_username = username info, auth_pem = None, auth_password = None \<rparr>;
          ssh0 = (case opts info of Some given \<Rightarrow> given | None \<Rightarrow> [])
      in case truthy_value (pem info) of
           Some p \<Rightarrow>
             (case readFileSync e (resolvePath e [p]) of
                Inr contents \<Rightarrow>
                  Loaded \<lparr> session_host = host info,
                           session_auth = auth0 \<lparr> auth_pem := Some contents \<rparr>,
                           session_ssh = ssh0 \<rparr> info
              | Inl err \<Rightarrow>
                  Fatal ([''Unable to load pem at \"'' @ resolvePath e [p] @ ''\"'',
                          ''for server \"'' @ name @ ''\"'']
                         @ (case err of ENOENT \<Rightarrow> [] | OtherFsError printed \<Rightarrow> [printed])))
         | None \<Rightarrow>
             (case truthy_value (password info) of
                Some pw \<Rightarrow>
                  Loaded \<lparr> session_host = host info,
                           session_auth = auth0 \<lparr> auth_password := Some pw \<rparr>,
                           session_ssh = ssh0 \<rparr> info
              | None \<Rightarrow>
                  (case agent_socket e of
                     Some sshAgent \<Rightarrow>
                       (let ssh1 = AList.update ''agent'' (JStr sshAgent) ssh0
                        in Loaded \<lparr> session_host = host info,
                                    session_auth = auth0,
                                    session_ssh = ssh1 \<rparr>
                             (case opts info of
                                Some given \<Rightarrow> info \<lparr> opts := Some ssh1 \<rparr>
                              | None \<Rightarrow> info))
                   | None \<Rightarrow>
                       Fatal [''error: server '' @ name
                              @ '' doesn't have password, ssh-agent or pem''])))"

text \<open>The paths the loop body reads for one server.\<close>

definition pem_reads :: "env \<Rightarrow> server_info \<Rightarrow> string list" where
  "pem_reads e info =
     (case truthy_value (pem info) of Some p \<Rightarrow> [resolvePath e [p]] | None \<Rightarrow> [])"

text \<open>
  The assignment \<open>sessions[name] = session\<close> on such an object: it writes an own property,
  in place when there is one of that name and as the last one otherwise; for the name
  \<open>__proto__\<close> it makes the session object the prototype instead.
\<close>

definition dict_store :: "string \<Rightarrow> session \<Rightarrow> session_dict \<Rightarrow> session_dict" where
  "dict_store name s d =
     (if name = ''__proto__'' then d \<lparr> dict_proto := Some s \<rparr>
      else d \<lparr> dict_entries := AList.update name (Session s) (dict_entries d) \<rparr>)"

text \<open>
  The own-property test of the two loops, \<open>obj.hasOwnProperty(name)\<close>, on an object of the
  configuration with the given own property names, for one of these names. The method is
  the one of \<open>Object.prototype\<close>, which answers \<open>true\<close>, unless \<open>obj\<close> has an own property named
  \<open>hasOwnProperty\<close>: that is no function, and the call raises a \<open>TypeError\<close>.
\<close>

definition hasOwnProperty_raises :: "string list \<Rightarrow> bool" where
  "hasOwnProperty_raises names = (''hasOwnProperty'' \<in> set names)"

text \<open>\<open>this.sessions[name] = session\<close>\<close>

definition store_session :: "nat \<Rightarrow> string \<Rightarrow> session \<Rightarrow> world \<Rightarrow> world" where
  "store_session this name s w =
     (case this_sessions w this of
        Some d \<Rightarrow> assign this (own_sessions_update (\<lambda>_. Some (Some (dict_store name s d)))) w
      | None \<Rightarrow> w)"

text \<open>The entry of the configuration object that \<open>this.config\<close> refers to, as the body left it.\<close>

definition store_server :: "nat \<Rightarrow> string \<Rightarrow> server_info \<Rightarrow> world \<Rightarrow> world" where
  "store_server this name info w =
     (case lookup_owner (heap w) own_config this of
        Some (owner, Some c) \<Rightarrow>
          assign owner
            (own_config_update (\<lambda>_. Some (Some (c \<lparr> servers := AList.update name info (servers c) \<rparr>))))
            w
      | _ \<Rightarrow> w)"

fun loadLoop :: "env \<Rightarrow> nat \<Rightarrow> (string \<times> server_info) list \<Rightarrow> world \<Rightarrow> unit outcome" where
  "loadLoop e this [] w = Return () w"
| "loadLoop e this ((name, info) # rest) w =
     (let w1 = w \<lparr> reads := reads w @ pem_reads e info \<rparr>
      in case loadServer e name info of
           Fatal ls \<Rightarrow> Exit 1 (print ls w1)
         | Loaded s info' \<Rightarrow>
             loadLoop e this rest (store_session this name s (store_server this name info' w1)))"

text \<open>
  \<open>_loadSessions\<close>. The first iteration of its loop raises when the own-property test does;
  the loop leaves the names of \<open>config.servers\<close> as they are, so this is decided before it.
\<close>

definition loadSessions :: "env \<Rightarrow> world \<Rightarrow> nat \<Rightarrow> unit outcome" where
  "loadSessions e w this =
     (case getConfig e w this of
        Return c w1 \<Rightarrow>
          (let w2 = assign this (own_sessions_update (\<lambda>_. Some (Some empty_dict))) w1
           in if hasOwnProperty_raises (map fst (servers c))
              then Throw (TypeError ''config.servers.hasOwnProperty is not a function'') w2
              else loadLoop e this (servers c) w2)
      | Throw x w1 \<Rightarrow> Throw x w1
      | Exit n w1 \<Rightarrow> Exit n w1)"

text \<open>
  The read \<open>sessions[name]\<close> on such an object, for a name other than \<open>__proto__\<close>: the value
  when it is truthy. An own property is found first; otherwise the read goes on at the
  prototype, where it finds the members of \<open>Object.prototype\<close>, or whatever the session
  object that was made the prototype has under that name.
\<close>

definition dict_get :: "env \<Rightarrow> session_dict \<Rightarrow> string \<Rightarrow> entry option" where
  "dict_get e d name =
     (case map_of (dict_entries d) name of
        Some v \<Rightarrow> Some v
      | None \<Rightarrow>
          (case dict_proto d of
             None \<Rightarrow> if name \<in> set Object_prototype_names then Some (Inherited name) else None
           | Some s \<Rightarrow> if session_property e s name then Some (Member s name) else None))"

text \<open>
  The \<open>for\<close> loop of \<open>_pickSessions\<close> over the server names one module refers to, with its
  body \<open>if (this.sessions[name]) { sessions[name] = this.sessions[name]; }\<close>. For the name
  \<open>__proto__\<close> the read gives the prototype of \<open>this.sessions\<close>, an object, and the assignment
  makes it the prototype of \<open>sessions\<close>.
\<close>

fun pickNames :: "env \<Rightarrow> session_dict \<Rightarrow> string list \<Rightarrow> session_dict \<Rightarrow> session_dict" where
  "pickNames e full [] picked = picked"
| "pickNames e full (name # names) picked =
     pickNames e full names
       (if name = ''__proto__'' then picked \<lparr> dict_proto := dict_proto full \<rparr>
        else (case dict_get e full name of
                Some v \<Rightarrow> picked \<lparr> dict_entries := AList.update name v (dict_entries picked) \<rparr>
              | None \<Rightarrow> picked))"

text \<open>
  The \<open>forEach\<close> of \<open>_pickSessions\<close> over the module names. The loop over the names of a
  module raises in its first iteration when the own-property test does; that is \<open>None\<close>.
\<close>

fun pickModules ::
  "env \<Rightarrow> config \<Rightarrow> session_dict \<Rightarrow> string list \<Rightarrow> session_dict \<Rightarrow> session_dict option" where
  "pickModules e c full [] picked = Some picked"
| "pickModules e c full (moduleName # rest) picked =
     (case map_of (modules c) moduleName of
        None \<Rightarrow> pickModules e c full rest picked
      | Some names \<Rightarrow>
          if hasOwnProperty_raises names then None
          else pickModules e c full rest (pickNames e full names picked))"

text \<open>
  \<open>_pickSessions\<close>. After the lazy load, \<open>this.config\<close> and \<open>this.sessions\<close> are read; a
  \<open>null\<close> there is a \<open>TypeError\<close> at the first property read.
\<close>

definition pickSessions :: "env \<Rightarrow> world \<Rightarrow> nat \<Rightarrow> string list \<Rightarrow> session_dict outcome" where
  "pickSessions e w this moduleNames =
     (case (if this_sessions w this = None then loadSessions e w this else Return () w) of
        Return _ w1 \<Rightarrow>
          (case (this_config w1 this, this_sessions w1 this) of
             (Some c, Some full) \<Rightarrow>
               (case pickModules e c full moduleNames empty_dict of
                  Some picked \<Rightarrow> Return picked w1
                | None \<Rightarrow>
                    Throw (TypeError ''moduleConfig.servers.hasOwnProperty is not a function'') w1)
           | _ \<Rightarrow> Throw (TypeError ''Cannot read property of null'') w1)
      | Throw x w1 \<Rightarrow> Throw x w1
      | Exit n w1 \<Rightarrow> Exit n w1)"


text \<open>The object \<open>Object.create(this)\<close>: no own property, prototype \<open>this\<close>.\<close>

definition Object_create :: "nat \<Rightarrow> api_object" where
  "Object_create this =
     \<lparr> proto = Some this, own_base = None, own_args = None, own_config = None,
       own_settings = None, own_sessions = None, own_configPath = None,
       own_settingsPath = None, own_verbose = None \<rparr>"

definition withSessions :: "env \<Rightarrow> world \<Rightarrow> nat \<Rightarrow> string list \<Rightarrow> nat outcome" where
  "withSessions e w this moduleNames =
     (let api = length (heap w);
          w0 = w \<lparr> heap := heap w @ [Object_create this] \<rparr>
      in case pickSessions e w0 this moduleNames of
           Return picked w1 \<Rightarrow>
             Return api (assign api (own_sessions_update (\<lambda>_. Some (Some picked))) w1)
         | Throw x w1 \<Rightarrow> Throw x w1
         | Exit n w1 \<Rightarrow> Exit n w1)"

text \<open>A sequence of calls of \<open>withSessions\<close> on one resolver; the views made, in order.\<close>

fun withSessions_all :: "env \<Rightarrow> world \<Rightarrow> nat \<Rightarrow> string list list \<Rightarrow> nat list outcome" where
  "withSessions_all e w this [] = Return [] w"
| "withSessions_all e w this (moduleNames # rest) =
     (case withSessions e w this moduleNames of
        Return api w1 \<Rightarrow>
          (case withSessions_all e w1 this rest of
             Return apis w2 \<Rightarrow> Return (api # apis) w2
           | Throw x w2 \<Rightarrow> Throw x w2
           | Exit n w2 \<Rightarrow> Exit n w2)
      | Throw x w1 \<Rightarrow> Throw x w1
      | Exit n w1 \<Rightarrow> Exit n w1)"

section \<open>The resolver: hasMeteorPackage\<close>

text \<open>
  The expression \<open>resolvePath(this.getBasePath(), this.getConfig().meteor.path,
  '.meteor/versions')\<close>, its arguments evaluated from left to right.
\<close>

definition versionsPath :: "env \<Rightarrow> world \<Rightarrow> nat \<Rightarrow> string outcome" where
  "versionsPath e w this =
     (let base = getBasePath w this
      in case getConfig e w this of
           Return c w1 \<Rightarrow>
             (case meteor c of
                None \<Rightarrow> Throw (TypeError ''Cannot read property path of undefined'') w1
              | Some m \<Rightarrow>
                  (case base of
                     None \<Rightarrow> Throw (TypeError ''Path must be a string'') w1
                   | Some b \<Rightarrow> Return (resolvePath e [b, meteor_path m, ''.meteor/versions'']) w1))
         | Throw x w1 \<Rightarrow> Throw x w1
         | Exit n w1 \<Rightarrow> Exit n w1)"

text \<open>The \<open>try\<close> block of \<open>hasMeteorPackage\<close>.\<close>

definition hasMeteorPackage_try :: "env \<Rightarrow> world \<Rightarrow> nat \<Rightarrow> string \<Rightarrow> bool outcome" where
  "hasMeteorPackage_try e w this name =
     (case versionsPath e w this of
        Return p w1 \<Rightarrow>
          (case readFileSync e p of
             Inl err \<Rightarrow> Throw (FsException err) (note_read p w1)
           | Inr contents \<Rightarrow>
               (case regexp_test e (''(^|'' @ [CHR 0x5C] @ ''s)'' @ name @ ''@'') contents of
                  Inl msg \<Rightarrow> Throw (SyntaxError msg) (note_read p w1)
                | Inr found \<Rightarrow> Return found (note_read p w1)))
      | Throw x w1 \<Rightarrow> Throw x w1
      | Exit n w1 \<Rightarrow> Exit n w1)"

definition hasMeteorPackage :: "env \<Rightarrow> world \<Rightarrow> nat \<Rightarrow> string \<Rightarrow> bool outcome" where
  "hasMeteorPackage e w this name =
     (case hasMeteorPackage_try e w this name of
        Throw x w1 \<Rightarrow>
          (case versionsPath e w1 this of
             Return p w2 \<Rightarrow> Return False (print [''Unable to load file '' @ p] w2)
           | Throw x' w2 \<Rightarrow> Throw x' w2
           | Exit n w2 \<Rightarrow> Exit n w2)
      | Return found w1 \<Rightarrow> Return found w1
      | Exit n w1 \<Rightarrow> Exit n w1)"

section \<open>Notions used in the statements\<close>

text \<open>The value an outcome returns, and the state an outcome ends in.\<close>

fun returned :: "'a outcome \<Rightarrow> 'a option" where
  "returned (Return x w) = Some x"
| "returned (Throw x w) = None"
| "returned (Exit n w) = None"

fun final_world :: "'a outcome \<Rightarrow> world" where
  "final_world (Return x w) = w"
| "final_world (Throw x w) = w"
| "final_world (Exit n w) = w"

text \<open>
  The objects above \<open>this\<close> are the same in both states, and no object has been made or
  dropped.
\<close>

definition kept_above :: "nat \<Rightarrow> world \<Rightarrow> world \<Rightarrow> bool" where
  "kept_above this w w' =
     (length (heap w') = length (heap w)
      \<and> (\<forall>j. this < j \<and> j < length (heap w) \<longrightarrow> heap w' ! j = heap w ! j))"

text \<open>
  The server names that the requested modules list: for each module name, in order, the
  names under \<open>servers\<close> of its configuration section, if it has one.
\<close>

definition listed :: "config \<Rightarrow> string list \<Rightarrow> string list" where
  "listed c ms = concat (List.map_filter (map_of (modules c)) ms)"

text \<open>
  No listed name is found by a read on the session map \<open>full\<close> without being the name of an
  own property: \<open>full\<close> is an ordinary object, with \<open>Object.prototype\<close> as its prototype and,
  as every object the program fills, without an own property \<open>__proto__\<close>; and every listed
  name that names a member of \<open>Object.prototype\<close> names an own property of \<open>full\<close>.
\<close>

definition no_inherited_name :: "config \<Rightarrow> session_dict \<Rightarrow> string list \<Rightarrow> bool" where
  "no_inherited_name c full ms =
     (dict_proto full = None
      \<and> ''__proto__'' \<notin> fst ` set (dict_entries full)
      \<and> set (listed c ms) \<inter> set Object_prototype_names \<subseteq> fst ` set (dict_entries full))"

text \<open>The object \<open>withSessions\<close> returns: made from \<open>this\<close>, with its own session set.\<close>

definition scoped_view :: "nat \<Rightarrow> session_dict \<Rightarrow> api_object" where
  "scoped_view this picked = (Object_create this) \<lparr> own_sessions := Some (Some picked) \<rparr>"

section \<open>Sample inputs\<close>

text \<open>
  Concrete inputs on which the model is evaluated. First build options: the defaults,
  server-only together with explicit mobile settings, and a configured executable.
\<close>

definition stringify_sample :: "json \<Rightarrow> string" where
  "stringify_sample j = (case j of JObj [] \<Rightarrow> ''{}'' | _ \<Rightarrow> ''null'')"

definition options_sample :: build_options where
  "options_sample =
     \<lparr> buildLocation = ''/tmp/build'', executable = None, debug = False,
       mobileSettings = None, serverOnly = False, server = None,
       allowIncompatibleUpdate = False \<rparr>"

definition server_only_with_settings :: build_options where
  "server_only_with_settings =
     options_sample \<lparr> serverOnly := True, mobileSettings := Some (JObj []) \<rparr>"

definition options_custom_executable :: build_options where
  "options_custom_executable = options_sample \<lparr> executable := Some ''/opt/meteor/meteor'' \<rparr>"

text \<open>
  Three servers: \<open>A\<close> with a key and a password, \<open>B\<close> with a password, \<open>C\<close> with neither and
  with SSH options of its own; the sessions they get on the sample host, where the key
  file and the agent socket exist.
\<close>

definition server_A :: server_info where
  "server_A = \<lparr> host = Some ''a.example.com'', username = Some ''root'',
                pem = Some ''/keys/id_rsa'', password = Some ''secret'', opts = None \<rparr>"

definition server_B :: server_info where
  "server_B = \<lparr> host = Some ''b.example.com'', username = Some ''root'',
                pem = None, password = Some ''hunter2'', opts = None \<rparr>"

definition server_C :: server_info where
  "server_C = \<lparr> host = Some ''c.example.com'', username = Some ''deploy'',
                pem = None, password = None, opts = Some [(''port'', JNum 2222)] \<rparr>"

definition session_A :: session where
  "session_A =
     \<lparr> session_host = Some ''a.example.com'',
       session_auth = \<lparr> auth_username = Some ''root'', auth_pem = Some ''PRIVATE KEY'',
                        auth_password = None \<rparr>,
       session_ssh = [] \<rparr>"

definition session_B :: session where
  "session_B =
     \<lparr> session_host = Some ''b.example.com'',
       session_auth = \<lparr> auth_username = Some ''root'', auth_pem = None,
                        auth_password = Some ''hunter2'' \<rparr>,
       session_ssh = [] \<rparr>"

definition session_C :: session where
  "session_C =
     \<lparr> session_host = Some ''c.example.com'',
       session_auth = \<lparr> auth_username = Some ''deploy'', auth_pem = None,
                        auth_password = None \<rparr>,
       session_ssh = [(''port'', JNum 2222), (''agent'', JStr ''/tmp/agent.sock'')] \<rparr>"


text \<open>
  A configuration with these servers, a module \<open>X\<close> on \<open>A\<close> and \<open>B\<close> and a module \<open>Y\<close> on
  \<open>C\<close>; the same without its \<open>meteor\<close> section.
\<close>

definition config_sample :: config where
  "config_sample =
     \<lparr> servers = [(''A'', server_A), (''B'', server_B), (''C'', server_C)],
       meteor = Some \<lparr> meteor_path = ''../app'' \<rparr>,
       modules = [(''X'', [''A'', ''B'']), (''Y'', [''C''])] \<rparr>"

text \<open>
  A configuration with servers named \<open>2\<close>, \<open>10\<close> and \<open>A\<close>, a module \<open>X\<close> that lists \<open>A\<close> and
  the name \<open>constructor\<close>, which is no server, a module \<open>Y\<close> on \<open>10\<close> and \<open>A\<close>, a module \<open>Z\<close> on
  \<open>2\<close>, and a module \<open>W\<close> that lists \<open>A\<close> and the name \<open>hasOwnProperty\<close>; and the session map of
  these servers.
\<close>

definition config_odd_names :: config where
  "config_odd_names =
     \<lparr> servers = [(''2'', server_C), (''10'', server_B), (''A'', server_A)],
       meteor = Some \<lparr> meteor_path = ''../app'' \<rparr>,
       modules = [(''X'', [''A'', ''constructor'']), (''Y'', [''10'', ''A'']), (''Z'', [''2'']),
                  (''W'', [''A'', ''hasOwnProperty''])] \<rparr>"


definition full_odd_names :: session_dict where
  "full_odd_names =
     \<lparr> dict_entries = [(''2'', Session session_C), (''10'', Session session_B),
                       (''A'', Session session_A)],
       dict_proto = None \<rparr>"

definition config_no_meteor :: config where
  "config_no_meteor = config_sample \<lparr> meteor := None \<rparr>"

text \<open>
  A Linux host with the configuration at \<open>/deploy/mup.js\<close>, a settings file that holds
  \<open>null\<close>, the key file and an agent socket; and variations of it: a Windows host, a
  settings file that holds an empty object, nothing readable at all, the configuration
  without \<open>meteor\<close>, the configurations with the other server names, no agent socket.
\<close>

definition env_sample :: env where
  "env_sample =
     \<lparr> proc = \<lparr> platform = ''linux'', environ = [(''SSH_AUTH_SOCK'', ''/tmp/agent.sock'')] \<rparr>,
       readFileSync = (\<lambda>p. if p = ''/keys/id_rsa'' then Inr ''PRIVATE KEY''
                           else if p = ''/deploy/settings.json'' then Inr ''null''
                           else Inl ENOENT),
       existsSync = (\<lambda>p. p = ''/tmp/agent.sock''),
       statSync = (\<lambda>p. Inr ()),
       require_module = (\<lambda>p. if p = ''/deploy/mup.js'' then Inr config_sample
                             else Inl MODULE_NOT_FOUND),
       parseJson = (\<lambda>s. if s = ''null'' then Inr JNull
                        else if s = ''{}'' then Inr (JObj [])
                        else Inl ''Unexpected token''),
       JSON_stringify = stringify_sample,
       regexp_test = (\<lambda>source contents. Inr False),
       resolvePath = join ''/'',
       path_dirname = (\<lambda>p. ''/deploy''),
       path_join = (\<lambda>a b. a @ ''/'' @ b),
       validate_index = (\<lambda>c. []),
       chalk_red = (\<lambda>s. s),
       session_property = (\<lambda>s name. name = ''execute'' \<or> name \<in> set Object_prototype_names) \<rparr>"

definition env_windows :: env where
  "env_windows =
     env_sample \<lparr> proc := \<lparr> platform = ''win32'', environ = [(''comspec'', ''C:/Windows/cmd.exe'')] \<rparr> \<rparr>"

definition env_settings_changed :: env where
  "env_settings_changed =
     env_sample \<lparr> readFileSync := (\<lambda>p. if p = ''/deploy/settings.json'' then Inr ''{}'' else Inl ENOENT) \<rparr>"

definition env_nothing_readable :: env where
  "env_nothing_readable =
     env_sample \<lparr> readFileSync := (\<lambda>p. Inl ENOENT), require_module := (\<lambda>p. Inl MODULE_NOT_FOUND) \<rparr>"

definition env_no_meteor :: env where
  "env_no_meteor =
     env_sample \<lparr> require_module := (\<lambda>p. if p = ''/deploy/mup.js'' then Inr config_no_meteor
                                          else Inl MODULE_NOT_FOUND) \<rparr>"


definition env_odd_names :: env where
  "env_odd_names =
     env_sample \<lparr> require_module := (\<lambda>p. if p = ''/deploy/mup.js'' then Inr config_odd_names
                                          else Inl MODULE_NOT_FOUND) \<rparr>"


text \<open>
  A configuration without servers and modules, on a host whose settings file holds an
  empty object.
\<close>

definition config_bare :: config where
  "config_bare =
     \<lparr> servers = [], meteor = Some \<lparr> meteor_path = ''../app'' \<rparr>, modules = [] \<rparr>"

definition env_bare :: env where
  "env_bare =
     env_sample \<lparr> readFileSync := (\<lambda>p. if p = ''/deploy/settings.json'' then Inr ''{}''
                                        else Inl ENOENT),
                  require_module := (\<lambda>p. if p = ''/deploy/mup.js'' then Inr config_bare
                                          else Inl MODULE_NOT_FOUND) \<rparr>"

text \<open>
  A run in which one resolver has been constructed, at address 0; and that run after
  \<open>getSettings\<close> has read the settings file that holds \<open>null\<close>.
\<close>

definition world_empty :: world where
  "world_empty = \<lparr> heap = [], console = [], reads = [] \<rparr>"

definition world_sample :: world where
  "world_sample = snd (new_MupAPI ''/deploy'' [] None None False world_empty)"

definition world_null_settings :: world where
  "world_null_settings = note_read ''/deploy/settings.json'' world_sample"

text \<open>
  The run on the host without servers after \<open>withSessions([])\<close>: the resolver at address 0
  has its configuration, and there is a view of it at address 1.
\<close>

definition world_view :: world where
  "world_view = final_world (withSessions env_bare world_sample 0 [])"

text \<open>
  Servers for the public-key check: a key file with a name of three characters, a public
  key below a directory whose name ends in \<open>.pub\<close>, and a plain public key. The schema
  check is taken to find nothing.
\<close>

definition server_short_key :: server_info where
  "server_short_key = \<lparr> host = Some ''1.2.3.4'', username = Some ''root'',
                        pem = Some ''key'', password = None, opts = None \<rparr>"

definition server_pub_twice :: server_info where
  "server_pub_twice = \<lparr> host = Some ''1.2.3.4'', username = Some ''root'',
                        pem = Some ''keys.pub/id.pub'', password = None, opts = None \<rparr>"

definition server_pub_key :: server_info where
  "server_pub_key = \<lparr> host = Some ''1.2.3.4'', username = Some ''root'',
                        pem = Some ''id_rsa.pub'', password = None, opts = None \<rparr>"

definition no_schema_details :: "(string \<times> server_info) list \<Rightarrow> problem list" where
  "no_schema_details srvs = []"

chapter \<open>Verified properties\<close>

section \<open>The argument list of the build tool\<close>

lemma buildArgs_unfold:
  "buildArgs js appPath bo =
     [''build'', ''--directory'', buildLocation bo, ''--architecture'', ''os.linux.x86_64'']
     @ (if debug bo then [''--debug''] else [])
     @ (case mobileSettings bo of
          None \<Rightarrow> []
        | Some ms \<Rightarrow> if truthy ms then [''--mobile-settings'', js ms] else [])
     @ (if serverOnly bo then [''--server-only'']
        else if (case mobileSettings bo of None \<Rightarrow> True | Some ms \<Rightarrow> \<not> truthy ms)
             then [''--mobile-settings'', appPath @ ''/settings.json''] else [])
     @ (case server bo of None \<Rightarrow> [] | Some s \<Rightarrow> if s \<noteq> [] then [''--server'', s] else [])
     @ (if allowIncompatibleUpdate bo then [''--allow-incompatible-update''] else [])"
  by (cases "mobileSettings bo"; cases "server bo"; simp add: buildArgs_def Let_def)

lemma server_part:
  "(case server bo of None \<Rightarrow> [] | Some s \<Rightarrow> if s \<noteq> [] then [''--server'', s] else [])
    = (if truthy_str (server bo) then [''--server'', the (server bo)] else [])"
  by (simp add: truthy_str_def split: option.split)

lemma buildArgs_server_only:
  assumes "serverOnly bo" and "\<forall>ms. mobileSettings bo = Some ms \<longrightarrow> \<not> truthy ms"
  shows "buildArgs js appPath bo =
        [''build'', ''--directory'', buildLocation bo, ''--architecture'', ''os.linux.x86_64'']
        @ (if debug bo then [''--debug''] else [])
        @ [''--server-only'']
        @ (if truthy_str (server bo) then [''--server'', the (server bo)] else [])
        @ (if allowIncompatibleUpdate bo then [''--allow-incompatible-update''] else [])"
  using assms unfolding buildArgs_unfold server_part by (simp split: option.split)

lemma buildArgs_default_settings:
  assumes "\<not> serverOnly bo" and "\<forall>ms. mobileSettings bo = Some ms \<longrightarrow> \<not> truthy ms"
  shows "buildArgs js appPath bo =
        [''build'', ''--directory'', buildLocation bo, ''--architecture'', ''os.linux.x86_64'']
        @ (if debug bo then [''--debug''] else [])
        @ [''--mobile-settings'', appPath @ ''/settings.json'']
        @ (if truthy_str (server bo) then [''--server'', the (server bo)] else [])
        @ (if allowIncompatibleUpdate bo then [''--allow-incompatible-update''] else [])"
  using assms unfolding buildArgs_unfold server_part by (simp split: option.split)

lemma buildArgs_explicit_settings:
  assumes "mobileSettings bo = Some (JObj props)"
  shows "buildArgs js appPath bo =
        [''build'', ''--directory'', buildLocation bo, ''--architecture'', ''os.linux.x86_64'']
        @ (if debug bo then [''--debug''] else [])
        @ [''--mobile-settings'', js (JObj props)]
        @ (if serverOnly bo then [''--server-only''] else [])
        @ (if truthy_str (server bo) then [''--server'', the (server bo)] else [])
        @ (if allowIncompatibleUpdate bo then [''--allow-incompatible-update''] else [])"
  using assms unfolding buildArgs_unfold server_part by simp

lemma buildArgs_no_flag:
  assumes "serverOnly bo" and "\<forall>ms. mobileSettings bo = Some ms \<longrightarrow> \<not> truthy ms"
    and "buildLocation bo \<noteq> ''--mobile-settings''" and "server bo \<noteq> Some ''--mobile-settings''"
  shows "''--mobile-settings'' \<notin> set (buildArgs js appPath bo)"
  using assms(3,4) unfolding buildArgs_server_only[OF assms(1,2)]
  by (cases "server bo") (auto simp: truthy_str_def)

text \<open>
  The flag for explicit mobile settings is pushed whenever \<open>mobileSettings\<close> is truthy,
  before \<open>serverOnly\<close> is looked at: with both set, the list has the flag and
  \<open>--server-only\<close>.
\<close>

theorem buildArgs_serverOnly_counterexample:
  "serverOnly server_only_with_settings \<and>
   buildArgs stringify_sample ''/app'' server_only_with_settings =
     [''build'', ''--directory'', ''/tmp/build'', ''--architecture'', ''os.linux.x86_64'',
      ''--mobile-settings'', ''{}'', ''--server-only''] \<and>
   ''--mobile-settings'' \<in> set (buildArgs stringify_sample ''/app'' server_only_with_settings)"
  by (simp add: server_only_with_settings_def options_sample_def buildArgs_def
      stringify_sample_def)

text \<open>
  Claim C2, as the code has it. With \<open>serverOnly\<close> set and no truthy \<open>mobileSettings\<close>,
  the list is the fixed arguments, the debug flag, \<open>--server-only\<close> and the trailing options,
  so it has no element \<open>--mobile-settings\<close> (unless the build location or the server URL
  is that very string). With neither set, it has \<open>--mobile-settings\<close> followed by
  \<open>appPath/settings.json\<close>. With an object as \<open>mobileSettings\<close>, it has
  \<open>--mobile-settings\<close> once, followed by the serialization of that object, whatever
  \<open>serverOnly\<close> is.
\<close>

theorem buildArgs_mobile_settings:
  "(serverOnly bo \<and> (\<forall>ms. mobileSettings bo = Some ms \<longrightarrow> \<not> truthy ms) \<longrightarrow>
      buildArgs js appPath bo =
        [''build'', ''--directory'', buildLocation bo, ''--architecture'', ''os.linux.x86_64'']
        @ (if debug bo then [''--debug''] else [])
        @ [''--server-only'']
        @ (if truthy_str (server bo) then [''--server'', the (server bo)] else [])
        @ (if allowIncompatibleUpdate bo then [''--allow-incompatible-update''] else [])
      \<and> (buildLocation bo \<noteq> ''--mobile-settings'' \<and> server bo \<noteq> Some ''--mobile-settings''
           \<longrightarrow> ''--mobile-settings'' \<notin> set (buildArgs js appPath bo)))
   \<and> (\<not> serverOnly bo \<and> (\<forall>ms. mobileSettings bo = Some ms \<longrightarrow> \<not> truthy ms) \<longrightarrow>
      buildArgs js appPath bo =
        [''build'', ''--directory'', buildLocation bo, ''--architecture'', ''os.linux.x86_64'']
        @ (if debug bo then [''--debug''] else [])
        @ [''--mobile-settings'', appPath @ ''/settings.json'']
        @ (if truthy_str (server bo) then [''--server'', the (server bo)] else [])
        @ (if allowIncompatibleUpdate bo then [''--allow-incompatible-update''] else []))
   \<and> (\<forall>props. mobileSettings bo = Some (JObj props) \<longrightarrow>
      buildArgs js appPath bo =
        [''build'', ''--directory'', buildLocation bo, ''--architecture'', ''os.linux.x86_64'']
        @ (if debug bo then [''--debug''] else [])
        @ [''--mobile-settings'', js (JObj props)]
        @ (if serverOnly bo then [''--server-only''] else [])
        @ (if truthy_str (server bo) then [''--server'', the (server bo)] else [])
        @ (if allowIncompatibleUpdate bo then [''--allow-incompatible-update''] else []))"
  using buildArgs_server_only[of bo js appPath] buildArgs_default_settings[of bo js appPath]
    buildArgs_explicit_settings[of bo _ js appPath] buildArgs_no_flag[of bo js appPath]
  by blast

text \<open>The three cases of the theorem on sample options.\<close>

theorem buildArgs_mobile_settings_witness:
  "buildArgs stringify_sample ''/app'' (options_sample \<lparr> serverOnly := True \<rparr>) =
     [''build'', ''--directory'', ''/tmp/build'', ''--architecture'', ''os.linux.x86_64'',
      ''--server-only'']
   \<and> ''--mobile-settings'' \<notin> set (buildArgs stringify_sample ''/app'' (options_sample \<lparr> serverOnly := True \<rparr>))
   \<and> buildArgs stringify_sample ''/app'' options_sample =
     [''build'', ''--directory'', ''/tmp/build'', ''--architecture'', ''os.linux.x86_64'',
      ''--mobile-settings'', ''/app/settings.json'']
   \<and> buildArgs stringify_sample ''/app'' (options_sample \<lparr> mobileSettings := Some (JObj []) \<rparr>) =
     [''build'', ''--directory'', ''/tmp/build'', ''--architecture'', ''os.linux.x86_64'',
      ''--mobile-settings'', ''{}'']"
proof -
  have a: "serverOnly (options_sample \<lparr> serverOnly := True \<rparr>) \<and>
     (\<forall>ms. mobileSettings (options_sample \<lparr> serverOnly := True \<rparr>) = Some ms \<longrightarrow> \<not> truthy ms)"
    by (simp add: options_sample_def)
  have a': "buildLocation (options_sample \<lparr> serverOnly := True \<rparr>) \<noteq> ''--mobile-settings'' \<and>
     server (options_sample \<lparr> serverOnly := True \<rparr>) \<noteq> Some ''--mobile-settings''"
    by (simp add: options_sample_def)
  have b: "\<not> serverOnly options_sample \<and>
     (\<forall>ms. mobileSettings options_sample = Some ms \<longrightarrow> \<not> truthy ms)"
    by (simp add: options_sample_def)
  have c: "mobileSettings (options_sample \<lparr> mobileSettings := Some (JObj []) \<rparr>) = Some (JObj [])"
    by simp
  from a a' buildArgs_mobile_settings[of "options_sample \<lparr> serverOnly := True \<rparr>" stringify_sample "''/app''"]
  have 1: "buildArgs stringify_sample ''/app'' (options_sample \<lparr> serverOnly := True \<rparr>) =
     [''build'', ''--directory'', ''/tmp/build'', ''--architecture'', ''os.linux.x86_64'',
      ''--server-only'']
   \<and> ''--mobile-settings'' \<notin> set (buildArgs stringify_sample ''/app'' (options_sample \<lparr> serverOnly := True \<rparr>))"
    by (simp add: options_sample_def truthy_str_def)
  from b buildArgs_mobile_settings[of options_sample stringify_sample "''/app''"]
  have 2: "buildArgs stringify_sample ''/app'' options_sample =
     [''build'', ''--directory'', ''/tmp/build'', ''--architecture'', ''os.linux.x86_64'',
      ''--mobile-settings'', ''/app/settings.json'']"
    by (simp add: options_sample_def truthy_str_def)
  from c buildArgs_mobile_settings[of "options_sample \<lparr> mobileSettings := Some (JObj []) \<rparr>" stringify_sample "''/app''"]
  have 3: "buildArgs stringify_sample ''/app'' (options_sample \<lparr> mobileSettings := Some (JObj []) \<rparr>) =
     [''build'', ''--directory'', ''/tmp/build'', ''--architecture'', ''os.linux.x86_64'',
      ''--mobile-settings'', ''{}'']"
    by (simp add: options_sample_def truthy_str_def stringify_sample_def)
  from 1 2 3 show ?thesis by blast
qed

section \<open>The command on a Windows host\<close>

lemma isWin_env_windows: "isWin (proc env_windows)"
  by (simp add: isWin_def env_windows_def)

lemma not_isWin_env_sample: "\<not> isWin (proc env_sample)"
  by (simp add: isWin_def env_sample_def)

lemma buildArgs_executable:
  "buildArgs js appPath (bo \<lparr> executable := configured \<rparr>) = buildArgs js appPath bo"
  by (simp add: buildArgs_unfold)

text \<open>
  Claim C8. On a host whose platform name starts with \<open>win\<close> the executable is the command
  shell (\<open>comspec\<close>, or \<open>cmd.exe\<close>) and the arguments are \<open>/c\<close>, the fixed word \<open>meteor\<close>,
  and the unchanged argument list: the configured \<open>buildOptions.executable\<close> plays no part,
  the call is the same whatever it is. On any other host the configured executable (or
  \<open>meteor\<close>) is run with the argument list.
\<close>

theorem buildMeteorApp_windows:
  "(isWin (proc e) \<longrightarrow>
      sp_executable (buildMeteorApp_spawn e appPath bo verbose)
        = or_default (getenv (proc e) ''comspec'') ''cmd.exe''
    \<and> sp_args (buildMeteorApp_spawn e appPath bo verbose)
        = [''/c'', ''meteor''] @ buildArgs (JSON_stringify e) appPath bo
    \<and> buildMeteorApp_spawn e appPath (bo \<lparr> executable := configured \<rparr>) verbose
        = buildMeteorApp_spawn e appPath bo verbose)
   \<and> (\<not> isWin (proc e) \<longrightarrow>
      sp_executable (buildMeteorApp_spawn e appPath bo verbose)
        = or_default (executable bo) ''meteor''
    \<and> sp_args (buildMeteorApp_spawn e appPath bo verbose)
        = buildArgs (JSON_stringify e) appPath bo)"
  by (simp add: buildMeteorApp_spawn_def Let_def buildArgs_executable)

text \<open>
  With the executable configured as \<open>/opt/meteor/meteor\<close>, a Windows host runs the plain
  \<open>meteor\<close> through the shell; a Linux host runs the configured executable.
\<close>

theorem buildMeteorApp_windows_witness:
  "sp_executable (buildMeteorApp_spawn env_windows ''/app'' options_custom_executable False)
     = ''C:/Windows/cmd.exe''
   \<and> sp_args (buildMeteorApp_spawn env_windows ''/app'' options_custom_executable False)
     = [''/c'', ''meteor'', ''build'', ''--directory'', ''/tmp/build'', ''--architecture'',
        ''os.linux.x86_64'', ''--mobile-settings'', ''/app/settings.json'']
   \<and> ''/opt/meteor/meteor''
       \<notin> set (sp_args (buildMeteorApp_spawn env_windows ''/app'' options_custom_executable False))
   \<and> sp_executable (buildMeteorApp_spawn env_sample ''/app'' options_custom_executable False)
     = ''/opt/meteor/meteor''
   \<and> sp_args (buildMeteorApp_spawn env_sample ''/app'' options_custom_executable False)
     = [''build'', ''--directory'', ''/tmp/build'', ''--architecture'',
        ''os.linux.x86_64'', ''--mobile-settings'', ''/app/settings.json'']"
proof -
  have args: "buildArgs (JSON_stringify e) ''/app'' options_custom_executable
     = [''build'', ''--directory'', ''/tmp/build'', ''--architecture'',
        ''os.linux.x86_64'', ''--mobile-settings'', ''/app/settings.json'']" for e
    by (simp add: buildArgs_def options_custom_executable_def options_sample_def)
  have comspec: "or_default (getenv (proc env_windows) ''comspec'') ''cmd.exe'' = ''C:/Windows/cmd.exe''"
    by (simp add: or_default_def getenv_def env_windows_def)
  have exe: "or_default (executable options_custom_executable) ''meteor'' = ''/opt/meteor/meteor''"
    by (simp add: or_default_def options_custom_executable_def)
  from buildMeteorApp_windows[of env_windows "''/app''" options_custom_executable False]
    isWin_env_windows
  have w: "sp_executable (buildMeteorApp_spawn env_windows ''/app'' options_custom_executable False)
        = ''C:/Windows/cmd.exe''
    \<and> sp_args (buildMeteorApp_spawn env_windows ''/app'' options_custom_executable False)
        = [''/c'', ''meteor''] @ buildArgs (JSON_stringify env_windows) ''/app'' options_custom_executable"
    by (simp add: comspec)
  from buildMeteorApp_windows[of env_sample "''/app''" options_custom_executable False]
    not_isWin_env_sample
  have l: "sp_executable (buildMeteorApp_spawn env_sample ''/app'' options_custom_executable False)
        = ''/opt/meteor/meteor''
    \<and> sp_args (buildMeteorApp_spawn env_sample ''/app'' options_custom_executable False)
        = buildArgs (JSON_stringify env_sample) ''/app'' options_custom_executable"
    by (simp add: exe)
  from w l show ?thesis by (simp add: args)
qed

section \<open>The public-key check of the servers section\<close>

lemma validateServers_append:
  "validateServers sd srvs =
     addLocation (sd srvs) ''servers''
     @ concat (map (\<lambda>(key, srv). addLocation (pub_details key srv) ''servers'') srvs)"
  by (induction srvs) (auto simp: validateServers_def addLocation_def)

text \<open>
  Claim C7. The check compares the position of the first \<open>.pub\<close> in the path with the length
  of the path less four. A path of three characters without \<open>.pub\<close> gives \<open>-1\<close> on both
  sides and is reported, though it does not end in \<open>.pub\<close>; a path that ends in \<open>.pub\<close> and
  has an earlier \<open>.pub\<close> is not reported. A path such as \<open>id_rsa.pub\<close> is reported once, at
  \<open>servers.name.pem\<close>.
\<close>

theorem validateServers_pub_check_misfires:
  "validateServers no_schema_details [(''one'', server_short_key)]
     = [\<lparr> message = pub_message, path = ''servers.one.pem'' \<rparr>]
   \<and> pem server_short_key = Some ''key'' \<and> \<not> endsWith ''key'' ''.pub''
   \<and> validateServers no_schema_details [(''two'', server_pub_twice)] = []
   \<and> pem server_pub_twice = Some ''keys.pub/id.pub'' \<and> endsWith ''keys.pub/id.pub'' ''.pub''
   \<and> validateServers no_schema_details [(''three'', server_pub_key)]
     = [\<lparr> message = pub_message, path = ''servers.three.pem'' \<rparr>]"
  by (simp add: validateServers_def addLocation_def pub_details_def no_schema_details_def
      server_short_key_def server_pub_twice_def server_pub_key_def indexOf_def endsWith_def)

section \<open>Completion of the archive\<close>

lemma once_callback_called [simp]: "once_called (once_callback err a)"
  by (simp add: once_callback_def)

lemma archive_step_called:
  "once_called a \<Longrightarrow>
     once_called (archive_step a ev) \<and> cb_calls (archive_step a ev) = cb_calls a"
  by (cases ev) (simp_all add: once_callback_def)

lemma archive_run_called:
  "once_called a \<Longrightarrow>
     once_called (archive_run a evs) \<and> cb_calls (archive_run a evs) = cb_calls a"
proof (induction evs arbitrary: a)
  case Nil
  then show ?case by simp
next
  case (Cons ev evs)
  from Cons.prems have "once_called (archive_step a ev)"
    and "cb_calls (archive_step a ev) = cb_calls a"
    by (simp_all add: archive_step_called)
  with Cons.IH[of "archive_step a ev"] show ?case by simp
qed

lemma archive_first_step:
  "once_called (archive_step (archiveIt e location) ev) \<and>
   cb_calls (archive_step (archiveIt e location) ev)
     = [case ev of OutputClose \<Rightarrow> None | ArchiveError msg \<Rightarrow> Some msg]"
  by (cases ev) (simp_all add: archiveIt_def once_callback_def)

text \<open>
  Claim C6. Whatever events the output stream and the encoder deliver after \<open>archiveIt\<close>,
  and in whatever order, the callback given to \<open>archiveIt\<close> is called once if any event
  arrives at all, and never twice; the call is made at the first event, without an error
  when that is the close of the output, with the encoder's error when that is an error.
\<close>

theorem archiveIt_completes_once:
  "cb_calls (archive_run (archiveIt e location) evs) =
     (case evs of
        [] \<Rightarrow> []
      | OutputClose # _ \<Rightarrow> [None]
      | ArchiveError msg # _ \<Rightarrow> [Some msg])
   \<and> length (cb_calls (archive_run (archiveIt e location) evs)) = (if evs = [] then 0 else 1)"
proof (cases evs)
  case Nil
  then show ?thesis by (simp add: archiveIt_def)
next
  case (Cons ev rest)
  have "cb_calls (archive_run (archiveIt e location) evs)
          = cb_calls (archive_step (archiveIt e location) ev)"
    using archive_run_called[of "archive_step (archiveIt e location) ev" rest]
      archive_first_step[of e location ev] Cons by simp
  with archive_first_step[of e location ev] Cons show ?thesis
    by (cases ev) simp_all
qed

text \<open>Error then close, close then error, and an error reported twice.\<close>

theorem archiveIt_completes_once_witness:
  "cb_calls (archive_run (archiveIt env_sample ''/tmp/build'') [ArchiveError ''disk full'', OutputClose])
     = [Some ''disk full'']
   \<and> cb_calls (archive_run (archiveIt env_sample ''/tmp/build'') [OutputClose, ArchiveError ''disk full''])
     = [None]
   \<and> cb_calls (archive_run (archiveIt env_sample ''/tmp/build'')
        [ArchiveError ''disk full'', ArchiveError ''again'', OutputClose, OutputClose])
     = [Some ''disk full'']"
  using archiveIt_completes_once[of env_sample "''/tmp/build''" "[ArchiveError ''disk full'', OutputClose]"]
    archiveIt_completes_once[of env_sample "''/tmp/build''" "[OutputClose, ArchiveError ''disk full'']"]
    archiveIt_completes_once[of env_sample "''/tmp/build''"
      "[ArchiveError ''disk full'', ArchiveError ''again'', OutputClose, OutputClose]"]
  by simp

section \<open>The build: what the events of the child process do\<close>

lemma buildApp_initial:
  assumes "buildApp e appPath bo verbose = Inr s0"
  shows "bs_promise s0 = Pending \<and> bs_archives s0 = [] \<and> bs_exited s0 = None
         \<and> bs_console s0 = []"
  using assms
  by (auto simp: buildApp_def Let_def split: sum.splits fs_error.splits)

lemma build_step_exited: "bs_exited s \<noteq> None \<Longrightarrow> build_step e bo s ev = s"
  by simp

lemma build_run_exited: "bs_exited s \<noteq> None \<Longrightarrow> build_run e bo s evs = s"
  by (induction evs) simp_all

lemma build_step_close_zero:
  "bs_exited s = None \<Longrightarrow>
     build_step e bo s (ChildClose (Some 0))
       = s \<lparr> bs_archives := bs_archives s @ [archiveIt e (buildLocation bo)] \<rparr>"
  by simp

lemma build_step_close_nonzero:
  "bs_exited s = None \<Longrightarrow> code \<noteq> Some 0 \<Longrightarrow>
     build_step e bo s (ChildClose code)
       = s \<lparr> bs_console := bs_console s @
                [Text ''\<newline>=> Build Error. Check the logs printed above.''],
              bs_exited := Some 1 \<rparr>"
  by simp

lemma build_step_error:
  "bs_exited s = None \<Longrightarrow>
     build_step e bo s (ChildError printed)
       = s \<lparr> bs_console := bs_console s @
                [Options (bs_spawned s), Text printed,
                 Text ''This error usually happens when meteor is not installed.''] \<rparr>"
  by simp

text \<open>Before any archive exists, only a close with code 0 changes more than the console.\<close>

lemma build_step_idle:
  assumes "bs_archives s = []" and "bs_promise s = Pending" and "ev \<noteq> ChildClose (Some 0)"
  shows "bs_archives (build_step e bo s ev) = [] \<and> bs_promise (build_step e bo s ev) = Pending"
  using assms by (cases ev) (auto simp: Let_def)

lemma build_run_idle:
  assumes "bs_archives s = []" and "bs_promise s = Pending" and "ChildClose (Some 0) \<notin> set evs"
  shows "bs_archives (build_run e bo s evs) = [] \<and> bs_promise (build_run e bo s evs) = Pending"
  using assms
proof (induction evs arbitrary: s)
  case Nil
  then show ?case by simp
next
  case (Cons ev evs)
  from Cons.prems have "ev \<noteq> ChildClose (Some 0)" by auto
  from build_step_idle[OF Cons.prems(1,2) this, of e bo] Cons.prems(3)
  show ?case using Cons.IH[of "build_step e bo s ev"] by simp
qed

lemma build_run_append:
  "build_run e bo s (evs @ evs') = build_run e bo (build_run e bo s evs) evs'"
  by (induction evs arbitrary: s) simp_all

lemma build_step_errors_only:
  "bs_exited s = None \<Longrightarrow> bs_exited (build_step e bo s (ChildError printed)) = None"
  by simp

lemma build_run_errors_only:
  "bs_exited s = None \<Longrightarrow> bs_exited (build_run e bo s (map ChildError printed)) = None"
proof (induction printed arbitrary: s)
  case Nil
  then show ?case by simp
next
  case (Cons p ps)
  from Cons.prems have "bs_exited (build_step e bo s (ChildError p)) = None" by simp
  from Cons.IH[OF this] show ?case by simp
qed

lemma build_step_status:
  "bs_exited s = None \<or> bs_exited s = Some 1 \<Longrightarrow>
     bs_exited (build_step e bo s ev) = None \<or> bs_exited (build_step e bo s ev) = Some 1"
  by (cases ev) (auto simp: Let_def)

lemma build_run_status:
  "bs_exited s = None \<or> bs_exited s = Some 1 \<Longrightarrow>
     bs_exited (build_run e bo s evs) = None \<or> bs_exited (build_run e bo s evs) = Some 1"
proof (induction evs arbitrary: s)
  case Nil
  then show ?case by simp
next
  case (Cons ev evs)
  from build_step_status[OF Cons.prems, of e bo ev] Cons.IH[of "build_step e bo s ev"]
  show ?case by simp
qed

lemma build_run_fatal:
  assumes "bs_archives s = []" and "bs_promise s = Pending" and "bs_exited s = None"
    and "ChildClose (Some 0) \<notin> set before" and "code \<noteq> Some 0"
  shows "bs_exited (build_run e bo s (before @ ChildClose code # after)) = Some 1
         \<and> bs_archives (build_run e bo s (before @ ChildClose code # after)) = []
         \<and> bs_promise (build_run e bo s (before @ ChildClose code # after)) = Pending"
proof -
  let ?s1 = "build_run e bo s before"
  let ?s2 = "build_step e bo ?s1 (ChildClose code)"
  from build_run_idle[OF assms(1,2,4), of e bo]
  have idle: "bs_archives ?s1 = []" "bs_promise ?s1 = Pending" by simp_all
  from build_run_status[of s e bo before] assms(3)
  have st: "bs_exited ?s1 = None \<or> bs_exited ?s1 = Some 1" by simp
  have ex: "bs_exited ?s2 = Some 1"
    using assms(5) st by auto
  have keep: "bs_archives ?s2 = [] \<and> bs_promise ?s2 = Pending"
    using idle assms(5) by (cases "bs_exited ?s1") simp_all
  have "build_run e bo s (before @ ChildClose code # after) = ?s2"
    using build_run_exited[of ?s2 e bo after] ex by (simp add: build_run_append)
  with ex keep show ?thesis by simp
qed

text \<open>
  Claim C5. After \<open>buildApp\<close> has returned its promise \<open>s0\<close>:
  \<^item> a close with exit code 0 calls \<open>archiveIt\<close> on \<open>buildOptions.buildLocation\<close>, and changes
    nothing else;
  \<^item> a close with any other code (or none) prints the build error and ends the process
    with status 1; no archive is started and the promise is left as it was;
  \<^item> an error event of the child prints three entries and changes nothing else;
  \<^item> whatever events arrive, an archive has been started or the promise has been settled
    only if a close with code 0 is among them;
  \<^item> if the first close has a code other than 0, the process has ended with no archive
    ever started and the promise pending;
  \<^item> error events alone leave the promise pending, start no archive and do not end the
    process.
\<close>

theorem buildApp_close_drives_resolution:
  assumes "buildApp e appPath bo verbose = Inr s0"
  shows
    "(\<forall>s. bs_exited s = None \<longrightarrow>
        build_step e bo s (ChildClose (Some 0))
          = s \<lparr> bs_archives := bs_archives s @ [archiveIt e (buildLocation bo)] \<rparr>)
     \<and> (\<forall>s code. bs_exited s = None \<and> code \<noteq> Some 0 \<longrightarrow>
        build_step e bo s (ChildClose code)
          = s \<lparr> bs_console := bs_console s @
                   [Text ''\<newline>=> Build Error. Check the logs printed above.''],
                 bs_exited := Some 1 \<rparr>)
     \<and> (\<forall>s printed. bs_exited s = None \<longrightarrow>
        build_step e bo s (ChildError printed)
          = s \<lparr> bs_console := bs_console s @
                   [Options (bs_spawned s), Text printed,
                    Text ''This error usually happens when meteor is not installed.''] \<rparr>)
     \<and> (\<forall>evs. bs_archives (build_run e bo s0 evs) \<noteq> [] \<or> bs_promise (build_run e bo s0 evs) \<noteq> Pending
           \<longrightarrow> ChildClose (Some 0) \<in> set evs)
     \<and> (\<forall>before code after. ChildClose (Some 0) \<notin> set before \<and> code \<noteq> Some 0 \<longrightarrow>
           bs_exited (build_run e bo s0 (before @ ChildClose code # after)) = Some 1
         \<and> bs_archives (build_run e bo s0 (before @ ChildClose code # after)) = []
         \<and> bs_promise (build_run e bo s0 (before @ ChildClose code # after)) = Pending)
     \<and> (\<forall>printed.
           bs_exited (build_run e bo s0 (map ChildError printed)) = None
         \<and> bs_archives (build_run e bo s0 (map ChildError printed)) = []
         \<and> bs_promise (build_run e bo s0 (map ChildError printed)) = Pending)"
proof -
  note init = buildApp_initial[OF assms]
  have a: "\<forall>s. bs_exited s = None \<longrightarrow>
        build_step e bo s (ChildClose (Some 0))
          = s \<lparr> bs_archives := bs_archives s @ [archiveIt e (buildLocation bo)] \<rparr>"
    using build_step_close_zero by blast
  have b: "\<forall>s code. bs_exited s = None \<and> code \<noteq> Some 0 \<longrightarrow>
        build_step e bo s (ChildClose code)
          = s \<lparr> bs_console := bs_console s @
                   [Text ''\<newline>=> Build Error. Check the logs printed above.''],
                 bs_exited := Some 1 \<rparr>"
    using build_step_close_nonzero by blast
  have c: "\<forall>s printed. bs_exited s = None \<longrightarrow>
        build_step e bo s (ChildError printed)
          = s \<lparr> bs_console := bs_console s @
                   [Options (bs_spawned s), Text printed,
                    Text ''This error usually happens when meteor is not installed.''] \<rparr>"
    using build_step_error by blast
  have d: "\<forall>evs. bs_archives (build_run e bo s0 evs) \<noteq> [] \<or> bs_promise (build_run e bo s0 evs) \<noteq> Pending
           \<longrightarrow> ChildClose (Some 0) \<in> set evs"
    using build_run_idle[of s0 _ e bo] init by blast
  have f: "\<forall>before code after. ChildClose (Some 0) \<notin> set before \<and> code \<noteq> Some 0 \<longrightarrow>
           bs_exited (build_run e bo s0 (before @ ChildClose code # after)) = Some 1
         \<and> bs_archives (build_run e bo s0 (before @ ChildClose code # after)) = []
         \<and> bs_promise (build_run e bo s0 (before @ ChildClose code # after)) = Pending"
    using build_run_fatal[of s0 _ _ e bo] init by blast
  have g: "\<forall>printed.
           bs_exited (build_run e bo s0 (map ChildError printed)) = None
         \<and> bs_archives (build_run e bo s0 (map ChildError printed)) = []
         \<and> bs_promise (build_run e bo s0 (map ChildError printed)) = Pending"
  proof (intro allI conjI)
    fix printed
    show "bs_exited (build_run e bo s0 (map ChildError printed)) = None"
      using build_run_errors_only init by blast
    have "ChildClose (Some 0) \<notin> set (map ChildError printed)" by auto
    from build_run_idle[OF _ _ this, of s0 e bo] init
    show "bs_archives (build_run e bo s0 (map ChildError printed)) = []"
      and "bs_promise (build_run e bo s0 (map ChildError printed)) = Pending"
      by simp_all
  qed
  from a b c d f g show ?thesis by blast
qed

text \<open>
  A build on the sample host: a failed spawn followed by a close with code 1 ends the
  process with nothing archived; a close with code 0 starts the archive of the build
  location, and its completion resolves the promise.
\<close>

theorem buildApp_close_drives_resolution_witness:
  "(\<exists>s0. buildApp env_sample ''/app'' options_sample False = Inr s0
      \<and> bs_exited (build_run env_sample options_sample s0 [ChildError ''spawn meteor ENOENT'', ChildClose (Some 1), ChildClose (Some 0)]) = Some 1
      \<and> bs_archives (build_run env_sample options_sample s0 [ChildError ''spawn meteor ENOENT'', ChildClose (Some 1), ChildClose (Some 0)]) = []
      \<and> bs_promise (build_run env_sample options_sample s0 [ChildError ''spawn meteor ENOENT'', ChildClose (Some 1), ChildClose (Some 0)]) = Pending
      \<and> bs_promise (build_run env_sample options_sample s0 [ChildError ''spawn meteor ENOENT'']) = Pending
      \<and> bs_archives (build_run env_sample options_sample s0 [ChildClose (Some 0)])
           = [archiveIt env_sample ''/tmp/build'']
      \<and> bs_promise (build_run env_sample options_sample s0 [ChildClose (Some 0), ArchiveEvent 0 OutputClose])
           = Resolved)"
proof -
  obtain s0 where s0: "buildApp env_sample ''/app'' options_sample False = Inr s0"
    by (simp add: buildApp_def env_sample_def Let_def)
  note init = buildApp_initial[OF s0]
  note main = buildApp_close_drives_resolution[OF s0]
  have 1: "bs_exited (build_run env_sample options_sample s0 ([ChildError ''spawn meteor ENOENT''] @ ChildClose (Some 1) # [ChildClose (Some 0)])) = Some 1
      \<and> bs_archives (build_run env_sample options_sample s0 ([ChildError ''spawn meteor ENOENT''] @ ChildClose (Some 1) # [ChildClose (Some 0)])) = []
      \<and> bs_promise (build_run env_sample options_sample s0 ([ChildError ''spawn meteor ENOENT''] @ ChildClose (Some 1) # [ChildClose (Some 0)])) = Pending"
    by (rule main[THEN conjunct2, THEN conjunct2, THEN conjunct2, THEN conjunct2, THEN conjunct1,
          rule_format]) simp
  have 2: "bs_promise (build_run env_sample options_sample s0 (map ChildError [''spawn meteor ENOENT''])) = Pending"
    using main by blast
  have 3: "build_run env_sample options_sample s0 [ChildClose (Some 0)]
        = s0 \<lparr> bs_archives := bs_archives s0 @ [archiveIt env_sample (buildLocation options_sample)] \<rparr>"
    using main init by simp
  have 4: "bs_promise (build_run env_sample options_sample s0 [ChildClose (Some 0), ArchiveEvent 0 OutputClose]) = Resolved"
    using 3 init by (simp add: Let_def archiveIt_def once_callback_def promise_callback_def)
  from 3 init have 5: "bs_archives (build_run env_sample options_sample s0 [ChildClose (Some 0)])
           = [archiveIt env_sample ''/tmp/build'']"
    by (simp add: options_sample_def)
  from s0 1 2 4 5 show ?thesis by simp
qed

section \<open>Reading and writing along the prototype chain\<close>

declare lookup_owner.simps [simp del]

lemma lookup_owner_own:
  "r < length h \<Longrightarrow> own (h ! r) = Some v \<Longrightarrow> lookup_owner h own r = Some (r, v)"
  by (subst lookup_owner.simps) simp

lemma lookup_owner_le: "lookup_owner h own r = Some (owner, v) \<Longrightarrow> owner \<le> r \<and> owner < length h"
proof (induction h own r rule: lookup_owner.induct)
  case (1 h own r)
  show ?case
  proof (cases "r < length h")
    case False
    with "1.prems" show ?thesis by (subst (asm) lookup_owner.simps) simp
  next
    case True
    show ?thesis
    proof (cases "own (h ! r)")
      case (Some v')
      with True "1.prems" show ?thesis by (subst (asm) lookup_owner.simps) simp
    next
      case None
      show ?thesis
      proof (cases "proto (h ! r)")
        case None': None
        with True None "1.prems" show ?thesis by (subst (asm) lookup_owner.simps) simp
      next
        case (Some p)
        show ?thesis
        proof (cases "p < r")
          case False
          with True None Some "1.prems" show ?thesis by (subst (asm) lookup_owner.simps) simp
        next
          case pr: True
          with True None Some "1.prems" have "lookup_owner h own p = Some (owner, v)"
            by (subst (asm) lookup_owner.simps) simp
          from "1.IH"[OF True None Some pr this] pr show ?thesis by simp
        qed
      qed
    qed
  qed
qed

text \<open>A read at \<open>r\<close> only looks at the objects up to \<open>r\<close>.\<close>

lemma lookup_owner_cong:
  assumes "r < length h" and "r < length h'" and "\<forall>i \<le> r. own (h' ! i) = own (h ! i) \<and> proto (h' ! i) = proto (h ! i)"
  shows "lookup_owner h' own r = lookup_owner h own r"
  using assms
proof (induction h own r rule: lookup_owner.induct)
  case (1 h own r)
  from "1.prems" have here: "own (h' ! r) = own (h ! r)" "proto (h' ! r) = proto (h ! r)" by simp_all
  show ?case
  proof (cases "own (h ! r)")
    case (Some v)
    with "1.prems" here show ?thesis
      by (simp add: lookup_owner_own)
  next
    case None
    show ?thesis
    proof (cases "proto (h ! r)")
      case None': None
      with None here "1.prems" show ?thesis
        by (subst lookup_owner.simps, subst (2) lookup_owner.simps) simp
    next
      case (Some p)
      show ?thesis
      proof (cases "p < r")
        case False
        with None Some here "1.prems" show ?thesis
          by (subst lookup_owner.simps, subst (2) lookup_owner.simps) simp
      next
        case True
        from "1.prems" True have "p < length h" "p < length h'"
          "\<forall>i\<le>p. own (h' ! i) = own (h ! i) \<and> proto (h' ! i) = proto (h ! i)" by simp_all
        from "1.IH"[OF "1.prems"(1) None Some True this]
        have "lookup_owner h' own p = lookup_owner h own p" .
        with None Some here True "1.prems" show ?thesis
          by (subst lookup_owner.simps, subst (2) lookup_owner.simps) simp
      qed
    qed
  qed
qed

lemma lookup_cong:
  assumes "r < length h" and "r < length h'" and "\<forall>i \<le> r. own (h' ! i) = own (h ! i) \<and> proto (h' ! i) = proto (h ! i)"
  shows "lookup h' own r = lookup h own r"
  using lookup_owner_cong[OF assms] by (simp add: lookup_def)

lemma lookup_own:
  "r < length h \<Longrightarrow> own (h ! r) = Some v \<Longrightarrow> lookup h own r = Some v"
  by (simp add: lookup_def lookup_owner_own)

lemma lookup_append:
  "r < length h \<Longrightarrow> lookup (h @ ext) own r = lookup h own r"
  by (rule lookup_cong) (simp_all add: nth_append)

lemma lookup_update_above:
  "r < length h \<Longrightarrow> r < i \<Longrightarrow> lookup (h[i := x]) own r = lookup h own r"
  by (rule lookup_cong) simp_all

text \<open>Writing a property other than the one read, at any object.\<close>

lemma lookup_update_other:
  assumes "r < length h" and "i < length h" and "own x = own (h ! i)" and "proto x = proto (h ! i)"
  shows "lookup (h[i := x]) own r = lookup h own r"
  using assms by (intro lookup_cong) (auto simp: nth_list_update)

lemma lookup_through:
  "r < length h \<Longrightarrow> own (h ! r) = None \<Longrightarrow> proto (h ! r) = Some p \<Longrightarrow> p < r \<Longrightarrow>
     lookup h own r = lookup h own p"
  by (simp add: lookup_def, subst lookup_owner.simps) simp

lemma heap_assign:
  "heap (assign this f w) = (if this < length (heap w) then (heap w)[this := f (heap w ! this)] else heap w)"
  by (simp add: assign_def)

lemma length_heap_assign [simp]: "length (heap (assign this f w)) = length (heap w)"
  by (simp add: assign_def)

lemma console_assign [simp]: "console (assign this f w) = console w"
  by (simp add: assign_def)

lemma reads_assign [simp]: "reads (assign this f w) = reads w"
  by (simp add: assign_def)

lemma heap_print [simp]: "heap (print ls w) = heap w"
  by (simp add: print_def)

lemma heap_note_read [simp]: "heap (note_read p w) = heap w"
  by (simp add: note_read_def)

lemma heap_validateConfig [simp]: "heap (validateConfig e w this fp) = heap w"
  by (simp add: validateConfig_def Let_def split: option.split)

text \<open>Reads on a view: its own sessions, everything else from the object it was made of.\<close>

lemma view_reads:
  assumes "heap w ! v = scoped_view this picked" and "this < v" and "v < length (heap w)"
  shows "this_sessions w v = Some picked"
    and "this_base w v = this_base w this"
    and "this_args w v = this_args w this"
    and "this_config w v = this_config w this"
    and "this_settings w v = this_settings w this"
    and "this_configPath w v = this_configPath w this"
    and "this_settingsPath w v = this_settingsPath w this"
    and "this_verbose w v = this_verbose w this"
proof -
  from assms show "this_sessions w v = Some picked"
    by (simp add: this_sessions_def lookup_own scoped_view_def)
  have through: "lookup (heap w) own v = lookup (heap w) own this"
    if "own (scoped_view this picked) = None" for own :: "api_object \<Rightarrow> 'a option"
    using assms that by (intro lookup_through) (simp_all add: scoped_view_def Object_create_def)
  show "this_base w v = this_base w this"
    unfolding this_base_def by (rule through) (simp add: scoped_view_def Object_create_def)
  show "this_args w v = this_args w this"
    unfolding this_args_def by (rule through) (simp add: scoped_view_def Object_create_def)
  have "lookup (heap w) own_config v = lookup (heap w) own_config this"
    by (rule through) (simp add: scoped_view_def Object_create_def)
  then show "this_config w v = this_config w this" by (simp add: this_config_def)
  have "lookup (heap w) own_settings v = lookup (heap w) own_settings this"
    by (rule through) (simp add: scoped_view_def Object_create_def)
  then show "this_settings w v = this_settings w this" by (simp add: this_settings_def)
  have "lookup (heap w) own_configPath v = lookup (heap w) own_configPath this"
    by (rule through) (simp add: scoped_view_def Object_create_def)
  then show "this_configPath w v = this_configPath w this" by (simp add: this_configPath_def)
  have "lookup (heap w) own_settingsPath v = lookup (heap w) own_settingsPath this"
    by (rule through) (simp add: scoped_view_def Object_create_def)
  then show "this_settingsPath w v = this_settingsPath w this" by (simp add: this_settingsPath_def)
  show "this_verbose w v = this_verbose w this"
    unfolding this_verbose_def by (rule through) (simp add: scoped_view_def Object_create_def)
qed

section \<open>Memoization of the configuration and the settings\<close>

lemma this_config_heap: "heap w' = heap w \<Longrightarrow> this_config w' this = this_config w this"
  by (simp add: this_config_def)

lemma this_config_assigned:
  "this < length (heap w) \<Longrightarrow>
     this_config (assign this (own_config_update (\<lambda>_. Some (Some c))) w) this = Some c"
  by (simp add: this_config_def heap_assign lookup_own)

lemma getConfig_cached: "this_config w this = Some c \<Longrightarrow> getConfig e w this = Return c w"
  by (simp add: getConfig_def)

lemma getConfig_loaded:
  assumes "this < length (heap w)" and "getConfig e w this = Return c w1"
  shows "this_config w1 this = Some c \<and> length (heap w1) = length (heap w)"
proof (cases "this_config w this")
  case (Some c0)
  with assms show ?thesis by (simp add: getConfig_def)
next
  case None
  with assms(2) obtain fp w0 where cf: "config_file e w this = Some (fp, w0)"
    and rq: "require_module e fp = Inr c"
    and w1: "w1 = validateConfig e (assign this (own_config_update (\<lambda>_. Some (Some c))) (note_read fp w0)) this fp"
    by (auto simp: getConfig_def split: option.splits sum.splits require_error.splits)
  from cf have len: "length (heap w0) = length (heap w)"
    by (auto simp: config_file_def split: option.splits)
  with assms(1) have "this < length (heap (note_read fp w0))" by simp
  from this_config_assigned[OF this]
  show ?thesis unfolding w1 using len by (simp add: this_config_heap[of "validateConfig _ _ _ _"])
qed

lemma this_settings_assigned:
  "this < length (heap w) \<Longrightarrow>
     this_settings (assign this (own_settings_update (\<lambda>_. Some j)) w) this = j"
  by (simp add: this_settings_def heap_assign lookup_own)

lemma getSettings_loaded:
  assumes "this < length (heap w)" and "getSettings e w this = Return j w1"
  shows "this_settings w1 this = j"
proof (cases "truthy (this_settings w this)")
  case True
  with assms show ?thesis by (auto simp: getSettings_def)
next
  case False
  with assms(2) obtain fp content where
    w1: "w1 = assign this (own_settings_update (\<lambda>_. Some j))
                (assign this (own_settings_update (\<lambda>_. Some (JStr content))) (note_read fp w))"
    by (auto simp: getSettings_def Let_def split: option.splits sum.splits)
  from assms(1) show ?thesis unfolding w1 by (simp add: this_settings_assigned)
qed

lemma this_settings_heap: "heap w' = heap w \<Longrightarrow> this_settings w' this = this_settings w this"
  by (simp add: this_settings_def)

lemma reads_print [simp]: "reads (print ls w) = reads w"
  by (simp add: print_def)

lemma reads_note_read [simp]: "reads (note_read p w) = reads w @ [p]"
  by (simp add: note_read_def)

text \<open>A call of \<open>getSettings\<close> while the field is falsy reads the file.\<close>

lemma getSettings_reads:
  assumes "\<not> truthy (this_settings w this)" and "settings_file e w this = Some fp"
  shows "reads (final_world (getSettings e w this)) = reads w @ [fp]"
    and "readFileSync e fp = Inr content \<Longrightarrow> parseJson e content = Inr j
           \<Longrightarrow> returned (getSettings e w this) = Some j"
proof -
  show "reads (final_world (getSettings e w this)) = reads w @ [fp]"
  proof (cases "readFileSync e fp")
    case (Inl err)
    with assms show ?thesis by (simp add: getSettings_def)
  next
    case (Inr content)
    with assms show ?thesis
      by (cases "parseJson e content") (simp_all add: getSettings_def Let_def)
  qed
  show "returned (getSettings e w this) = Some j"
    if "readFileSync e fp = Inr content" "parseJson e content = Inr j"
    using assms that by (simp add: getSettings_def Let_def)
qed

text \<open>A call of \<open>getSettings\<close> on a view writes the field of the view, not of its base.\<close>

lemma getSettings_on_view:
  assumes "heap w ! v = scoped_view this picked" and "this < v" and "v < length (heap w)"
    and "getSettings e w v = Return j w1"
  shows "this_settings w1 this = this_settings w this" and "this_settings w1 v = j"
proof -
  from assms(4) have j: "this_settings w1 v = j"
    using getSettings_loaded[OF assms(3,4)] by simp
  show "this_settings w1 v = j" by (rule j)
  show "this_settings w1 this = this_settings w this"
  proof (cases "truthy (this_settings w v)")
    case True
    with assms(4) show ?thesis by (simp add: getSettings_def)
  next
    case False
    with assms(4) obtain fp content where
      w1: "w1 = assign v (own_settings_update (\<lambda>_. Some j))
                  (assign v (own_settings_update (\<lambda>_. Some (JStr content))) (note_read fp w))"
      by (auto simp: getSettings_def Let_def split: option.splits sum.splits)
    from assms(2,3) have "lookup (heap w1) own_settings this = lookup (heap w) own_settings this"
      unfolding w1 by (simp add: heap_assign lookup_update_above)
    then show ?thesis by (simp add: this_settings_def)
  qed
qed

text \<open>
  Claim C9, as the code has it. Once \<open>getConfig\<close> has returned a configuration, a further
  call on the same object returns the same configuration and leaves the state as it is,
  with no path added to the reads and nothing printed, whatever the file system holds by
  then. The same holds for \<open>getSettings\<close> once it has returned a truthy value (an object,
  an array, a non-empty string, a number other than zero, \<open>true\<close>). Further:
  \<^item> the field \<open>settings\<close> holds what \<open>getSettings\<close> returned, and a call made while the field
    holds a falsy value reads the settings file again, and returns what the file holds
    then if it can be read and parsed;
  \<^item> a call on a view made by \<open>withSessions\<close> returns what the object it was made of has
    cached, and leaves the state as it is;
  \<^item> a call of \<open>getSettings\<close> on such a view that loads the settings writes the field of the
    view: the field of the object it was made of is as before.
\<close>

theorem getConfig_getSettings_memoize:
  "(this < length (heap w) \<and> getConfig e w this = Return c w1
      \<longrightarrow> getConfig e' w1 this = Return c w1)
   \<and> (this < length (heap w) \<and> getSettings e w this = Return j w1 \<and> truthy j
      \<longrightarrow> getSettings e' w1 this = Return j w1)
   \<and> (this < length (heap w) \<and> getSettings e w this = Return j w1
      \<longrightarrow> this_settings w1 this = j)
   \<and> (\<not> truthy (this_settings w1 this) \<and> settings_file e' w1 this = Some fp
      \<longrightarrow> reads (final_world (getSettings e' w1 this)) = reads w1 @ [fp]
        \<and> (\<forall>content j'. readFileSync e' fp = Inr content \<and> parseJson e' content = Inr j'
              \<longrightarrow> returned (getSettings e' w1 this) = Some j'))
   \<and> (heap w1 ! v = scoped_view this picked \<and> this < v \<and> v < length (heap w1)
      \<longrightarrow> (this_config w1 this = Some c \<longrightarrow> getConfig e' w1 v = Return c w1)
        \<and> (truthy (this_settings w1 this)
              \<longrightarrow> getSettings e' w1 v = Return (this_settings w1 this) w1))
   \<and> (heap w ! v = scoped_view this picked \<and> this < v \<and> v < length (heap w)
        \<and> getSettings e w v = Return j w1
      \<longrightarrow> this_settings w1 this = this_settings w this \<and> this_settings w1 v = j)"
proof (intro conjI impI allI)
  assume "this < length (heap w) \<and> getConfig e w this = Return c w1"
  then have "this_config w1 this = Some c" using getConfig_loaded by blast
  then show "getConfig e' w1 this = Return c w1" by (rule getConfig_cached)
next
  assume a: "this < length (heap w) \<and> getSettings e w this = Return j w1 \<and> truthy j"
  then have "this_settings w1 this = j" using getSettings_loaded by blast
  with a show "getSettings e' w1 this = Return j w1" by (simp add: getSettings_def)
next
  assume "this < length (heap w) \<and> getSettings e w this = Return j w1"
  then show "this_settings w1 this = j" using getSettings_loaded by blast
next
  assume a: "\<not> truthy (this_settings w1 this) \<and> settings_file e' w1 this = Some fp"
  then show "reads (final_world (getSettings e' w1 this)) = reads w1 @ [fp]"
    using getSettings_reads(1)[of w1 this e' fp] by blast
next
  fix content j'
  assume a: "\<not> truthy (this_settings w1 this) \<and> settings_file e' w1 this = Some fp"
    and b: "readFileSync e' fp = Inr content \<and> parseJson e' content = Inr j'"
  then show "returned (getSettings e' w1 this) = Some j'"
    using getSettings_reads(2)[of w1 this e' fp content j'] by blast
next
  assume a: "heap w1 ! v = scoped_view this picked \<and> this < v \<and> v < length (heap w1)"
    and b: "this_config w1 this = Some c"
  from a have "this_config w1 v = this_config w1 this" using view_reads(4) by blast
  with b show "getConfig e' w1 v = Return c w1" by (simp add: getConfig_cached)
next
  assume a: "heap w1 ! v = scoped_view this picked \<and> this < v \<and> v < length (heap w1)"
    and b: "truthy (this_settings w1 this)"
  from a have "this_settings w1 v = this_settings w1 this" using view_reads(5) by blast
  with b show "getSettings e' w1 v = Return (this_settings w1 this) w1"
    by (simp add: getSettings_def)
next
  assume a: "heap w ! v = scoped_view this picked \<and> this < v \<and> v < length (heap w)
        \<and> getSettings e w v = Return j w1"
  then show "this_settings w1 this = this_settings w this"
    using getSettings_on_view(1)[of w v this picked e j w1] by blast
next
  assume a: "heap w ! v = scoped_view this picked \<and> this < v \<and> v < length (heap w)
        \<and> getSettings e w v = Return j w1"
  then show "this_settings w1 v = j"
    using getSettings_on_view(2)[of w v this picked e j w1] by blast
qed

lemma returned_final: "returned out = Some x \<Longrightarrow> out = Return x (final_world out)"
  by (cases out) simp_all

text \<open>
  A settings file that holds \<open>null\<close> is read and parsed, and \<open>getSettings\<close> returns \<open>null\<close>;
  the field then still holds \<open>null\<close>, so the next call reads the file again and returns
  what the file holds by then. And on the view that \<open>withSessions\<close> has made of a resolver,
  \<open>getSettings\<close> reads a settings file that holds an empty object and returns the object;
  a further call on the view returns it again; a call on the resolver itself then reads
  the file again, and returns what it holds by then, here \<open>null\<close>.
\<close>

theorem getSettings_null_counterexample:
  "getSettings env_sample world_sample 0 = Return JNull world_null_settings
   \<and> returned (getSettings env_settings_changed world_null_settings 0) = Some (JObj [])
   \<and> reads world_null_settings = [''/deploy/settings.json'']
   \<and> reads (final_world (getSettings env_settings_changed world_null_settings 0))
       = [''/deploy/settings.json'', ''/deploy/settings.json'']
   \<and> returned (withSessions env_bare world_sample 0 []) = Some 1
   \<and> reads world_view = [''/deploy/mup.js'']
   \<and> returned (getSettings env_bare world_view 1) = Some (JObj [])
   \<and> returned (getSettings env_sample (final_world (getSettings env_bare world_view 1)) 1)
       = Some (JObj [])
   \<and> returned (getSettings env_sample (final_world (getSettings env_bare world_view 1)) 0)
       = Some JNull
   \<and> reads (final_world
        (getSettings env_sample (final_world (getSettings env_bare world_view 1)) 0))
       = [''/deploy/mup.js'', ''/deploy/settings.json'', ''/deploy/settings.json'']"
  by code_simp

text \<open>
  The configuration and a truthy settings value are kept when nothing can be read any
  more: the second call has the outcome of the first. After the settings file that holds
  \<open>null\<close> has been read, the next call reads the file, which holds an empty object by
  then. The view at address 1 of the resolver at address 0 returns the configuration and
  the settings the resolver has loaded; settings loaded through the view leave the field
  of the resolver as it was.
\<close>

theorem getConfig_getSettings_memoize_witness:
  "returned (getConfig env_sample world_sample 0) = Some config_sample
   \<and> getConfig env_nothing_readable (final_world (getConfig env_sample world_sample 0)) 0
       = getConfig env_sample world_sample 0
   \<and> returned (getSettings env_settings_changed world_sample 0) = Some (JObj [])
   \<and> getSettings env_nothing_readable (final_world (getSettings env_settings_changed world_sample 0)) 0
       = getSettings env_settings_changed world_sample 0
   \<and> this_settings world_null_settings 0 = JNull
   \<and> reads (final_world (getSettings env_settings_changed world_null_settings 0))
       = reads world_null_settings @ [''/deploy/settings.json'']
   \<and> returned (getSettings env_settings_changed world_null_settings 0) = Some (JObj [])
   \<and> getConfig env_nothing_readable world_view 1 = Return config_bare world_view
   \<and> getSettings env_nothing_readable (final_world (getSettings env_bare world_view 0)) 1
       = Return (JObj []) (final_world (getSettings env_bare world_view 0))
   \<and> this_settings (final_world (getSettings env_bare world_view 1)) 1 = JObj []
   \<and> this_settings (final_world (getSettings env_bare world_view 1)) 0 = JNull"
proof -
  note main = getConfig_getSettings_memoize
  let ?w1 = "final_world (getConfig env_sample world_sample 0)"
  let ?w2 = "final_world (getSettings env_settings_changed world_sample 0)"
  have rc: "returned (getConfig env_sample world_sample 0) = Some config_sample"
    by code_simp
  then have c: "getConfig env_sample world_sample 0 = Return config_sample ?w1"
    by (rule returned_final)
  have rs: "returned (getSettings env_settings_changed world_sample 0) = Some (JObj [])"
    by code_simp
  then have s: "getSettings env_settings_changed world_sample 0 = Return (JObj []) ?w2"
    by (rule returned_final)
  have len: "0 < length (heap world_sample)" by code_simp
  from main[where this = 0 and w = world_sample and e = env_sample
      and c = config_sample and ?w1.0 = ?w1 and e' = env_nothing_readable, THEN conjunct1] c len
  have c': "getConfig env_nothing_readable ?w1 0 = Return config_sample ?w1"
    by simp
  from main[where this = 0 and w = world_sample
      and e = env_settings_changed and j = "JObj []" and ?w1.0 = ?w2
      and e' = env_nothing_readable, THEN conjunct2, THEN conjunct1] s len
  have s': "getSettings env_nothing_readable ?w2 0 = Return (JObj []) ?w2"
    by simp
  have c'': "getConfig env_nothing_readable ?w1 0 = getConfig env_sample world_sample 0"
    unfolding c' by (rule c[symmetric])
  have s'': "getSettings env_nothing_readable ?w2 0 = getSettings env_settings_changed world_sample 0"
    unfolding s' by (rule s[symmetric])
  have n: "getSettings env_sample world_sample 0 = Return JNull world_null_settings"
    by code_simp
  from main[where this = 0 and w = world_sample and e = env_sample and j = JNull
      and ?w1.0 = world_null_settings,
      THEN conjunct2, THEN conjunct2, THEN conjunct1] n len
  have f: "this_settings world_null_settings 0 = JNull" by simp
  have sf: "settings_file env_settings_changed world_null_settings 0
      = Some ''/deploy/settings.json''" by code_simp
  have rd: "readFileSync env_settings_changed ''/deploy/settings.json'' = Inr ''{}''"
    "parseJson env_settings_changed ''{}'' = Inr (JObj [])"
    by (simp_all add: env_settings_changed_def env_sample_def)
  have falsy: "\<not> truthy (this_settings world_null_settings 0)
      \<and> settings_file env_settings_changed world_null_settings 0 = Some ''/deploy/settings.json''"
    using f sf by simp
  note reread = mp[OF main[where this = 0 and ?w1.0 = world_null_settings
        and e' = env_settings_changed and fp = "''/deploy/settings.json''",
        THEN conjunct2, THEN conjunct2, THEN conjunct2, THEN conjunct1] falsy]
  from reread
  have again: "reads (final_world (getSettings env_settings_changed world_null_settings 0))
       = reads world_null_settings @ [''/deploy/settings.json'']"
    by (rule conjunct1)
  from reread[THEN conjunct2, rule_format, of "''{}''" "JObj []"] rd
  have again': "returned (getSettings env_settings_changed world_null_settings 0) = Some (JObj [])"
    by simp
  let ?w3 = "final_world (getSettings env_bare world_view 0)"
  let ?w4 = "final_world (getSettings env_bare world_view 1)"
  have view: "heap world_view ! 1 = scoped_view 0 empty_dict" "length (heap world_view) = 2"
    "this_config world_view 0 = Some config_bare"
    by code_simp+
  from main[where this = 0 and v = 1 and ?w1.0 = world_view and picked = empty_dict
      and c = config_bare and e' = env_nothing_readable,
      THEN conjunct2, THEN conjunct2, THEN conjunct2, THEN conjunct2, THEN conjunct1] view
  have vc: "getConfig env_nothing_readable world_view 1 = Return config_bare world_view"
    by simp
  have view3: "heap ?w3 ! 1 = scoped_view 0 empty_dict" "length (heap ?w3) = 2"
    "this_settings ?w3 0 = JObj []"
    by code_simp+
  from main[where this = 0 and v = 1 and ?w1.0 = ?w3 and picked = empty_dict
      and e' = env_nothing_readable,
      THEN conjunct2, THEN conjunct2, THEN conjunct2, THEN conjunct2, THEN conjunct1] view3
  have vs: "getSettings env_nothing_readable ?w3 1 = Return (JObj []) ?w3"
    by (simp add: truthy.simps)
  have "returned (getSettings env_bare world_view 1) = Some (JObj [])" by code_simp
  then have g: "getSettings env_bare world_view 1 = Return (JObj []) ?w4"
    by (rule returned_final)
  have base: "this_settings world_view 0 = JNull" by code_simp
  from main[where this = 0 and v = 1 and w = world_view and picked = empty_dict
      and e = env_bare and j = "JObj []" and ?w1.0 = ?w4,
      THEN conjunct2, THEN conjunct2, THEN conjunct2, THEN conjunct2, THEN conjunct2] view g base
  have on_view: "this_settings ?w4 1 = JObj []" "this_settings ?w4 0 = JNull"
    by simp_all
  from rc rs c'' s'' f again again' vc vs on_view show ?thesis by blast
qed

section \<open>hasMeteorPackage\<close>

lemma this_base_heap: "heap w' = heap w \<Longrightarrow> this_base w' this = this_base w this"
  by (simp add: this_base_def)

lemma versionsPath_no_meteor:
  assumes "getConfig e w this = Return c w1" and "meteor c = None"
  shows "versionsPath e w this = Throw (TypeError ''Cannot read property path of undefined'') w1"
  using assms by (simp add: versionsPath_def)

text \<open>Loading the configuration leaves a base path in place, possibly a new one.\<close>

lemma getConfig_base:
  assumes "this < length (heap w)" and "getConfig e w this = Return c w1"
    and "this_base w this = Some b"
  shows "\<exists>b'. this_base w1 this = Some b'"
proof (cases "this_config w this")
  case (Some c0)
  with assms show ?thesis by (auto simp: getConfig_def)
next
  case None
  with assms(2) obtain fp w0 where cf: "config_file e w this = Some (fp, w0)"
    and w1: "heap w1 = heap (assign this (own_config_update (\<lambda>_. Some (Some c))) (note_read fp w0))"
    by (auto simp: getConfig_def split: option.splits sum.splits require_error.splits)
  from cf assms(1,3) have "\<exists>b'. this_base w0 this = Some b'"
    by (auto simp: config_file_def this_base_def heap_assign lookup_own split: option.splits)
  then obtain b' where b': "lookup (heap w0) own_base this = Some b'"
    by (auto simp: this_base_def)
  from cf have len: "length (heap w0) = length (heap w)"
    by (auto simp: config_file_def split: option.splits)
  have "lookup (heap w1) own_base this = lookup (heap w0) own_base this"
    unfolding w1 using assms(1) len
    by (simp add: heap_assign lookup_update_other)
  with b' show ?thesis by (simp add: this_base_def)
qed

text \<open>
  Claim C10. When the configuration has no \<open>meteor\<close> section, the read of
  \<open>this.getConfig().meteor.path\<close> raises a \<open>TypeError\<close> inside the \<open>try\<close> block; the \<open>catch\<close>
  block evaluates the same expression for its message, and the \<open>TypeError\<close> raised there
  leaves \<open>hasMeteorPackage\<close>. When the section is there and the file cannot be read, the
  message is printed and \<open>false\<close> is returned.
\<close>

theorem hasMeteorPackage_missing_section_raises:
  "(this < length (heap w) \<and> getConfig e w this = Return c w1 \<and> meteor c = None
      \<longrightarrow> hasMeteorPackage e w this name
            = Throw (TypeError ''Cannot read property path of undefined'') w1)
   \<and> (this < length (heap w) \<and> getConfig e w this = Return c w1 \<and> meteor c = Some m
        \<and> getBasePath w this = Some b
        \<and> readFileSync e (resolvePath e [b, meteor_path m, ''.meteor/versions'']) = Inl err
      \<longrightarrow> (\<exists>w2. hasMeteorPackage e w this name = Return False w2))"
proof (intro conjI impI)
  assume a: "this < length (heap w) \<and> getConfig e w this = Return c w1 \<and> meteor c = None"
  then have "this_config w1 this = Some c"
    using getConfig_loaded by blast
  then have cached: "getConfig e w1 this = Return c w1"
    by (rule getConfig_cached)
  from a have t: "versionsPath e w this
      = Throw (TypeError ''Cannot read property path of undefined'') w1"
    by (simp add: versionsPath_no_meteor)
  from cached a have "versionsPath e w1 this
      = Throw (TypeError ''Cannot read property path of undefined'') w1"
    by (simp add: versionsPath_no_meteor)
  with t show "hasMeteorPackage e w this name
      = Throw (TypeError ''Cannot read property path of undefined'') w1"
    by (simp add: hasMeteorPackage_def hasMeteorPackage_try_def)
next
  assume a: "this < length (heap w) \<and> getConfig e w this = Return c w1 \<and> meteor c = Some m
        \<and> getBasePath w this = Some b
        \<and> readFileSync e (resolvePath e [b, meteor_path m, ''.meteor/versions'']) = Inl err"
  let ?p = "resolvePath e [b, meteor_path m, ''.meteor/versions'']"
  let ?w1 = "note_read ?p w1"
  from a have vp: "versionsPath e w this = Return ?p w1"
    by (simp add: versionsPath_def)
  with a have tr: "hasMeteorPackage_try e w this name = Throw (FsException err) ?w1"
    by (simp add: hasMeteorPackage_try_def)
  from a getConfig_loaded[of this w e c w1]
  have cfg: "this_config w1 this = Some c" by simp
  then have "this_config ?w1 this = Some c"
    by (simp add: this_config_heap[of ?w1 w1])
  then have cached: "getConfig e ?w1 this = Return c ?w1" by (rule getConfig_cached)
  from a getConfig_base[of this w e c w1 b] obtain b' where "this_base w1 this = Some b'"
    by (auto simp: getBasePath_def)
  then have "getBasePath ?w1 this = Some b'"
    by (simp add: getBasePath_def this_base_heap[of ?w1 w1])
  with cached a have "\<exists>p. versionsPath e ?w1 this = Return p ?w1"
    by (simp add: versionsPath_def)
  with tr show "\<exists>w2. hasMeteorPackage e w this name = Return False w2"
    by (auto simp: hasMeteorPackage_def)
qed

text \<open>
  The sample resolver with a configuration that has no \<open>meteor\<close> section, and with the
  sample configuration, whose application has no readable \<open>.meteor/versions\<close>.
\<close>

theorem hasMeteorPackage_missing_section_raises_witness:
  "hasMeteorPackage env_no_meteor world_sample 0 ''accounts-base''
     = Throw (TypeError ''Cannot read property path of undefined'')
         (final_world (getConfig env_no_meteor world_sample 0))
   \<and> returned (hasMeteorPackage env_sample world_sample 0 ''accounts-base'') = Some False"
proof -
  let ?w1 = "final_world (getConfig env_no_meteor world_sample 0)"
  let ?w2 = "final_world (getConfig env_sample world_sample 0)"
  have "returned (getConfig env_no_meteor world_sample 0) = Some config_no_meteor"
    by code_simp
  then have c: "getConfig env_no_meteor world_sample 0 = Return config_no_meteor ?w1"
    by (rule returned_final)
  have "returned (getConfig env_sample world_sample 0) = Some config_sample"
    by code_simp
  then have c2: "getConfig env_sample world_sample 0 = Return config_sample ?w2"
    by (rule returned_final)
  have len: "0 < length (heap world_sample)" by code_simp
  have none: "meteor config_no_meteor = None" by code_simp
  have some: "meteor config_sample = Some \<lparr> meteor_path = ''../app'' \<rparr>" by code_simp
  have base: "getBasePath world_sample 0 = Some ''/deploy''" by code_simp
  have unreadable: "readFileSync env_sample
      (resolvePath env_sample [''/deploy'', meteor_path \<lparr> meteor_path = ''../app'' \<rparr>, ''.meteor/versions''])
      = Inl ENOENT" by code_simp
  from hasMeteorPackage_missing_section_raises[where this = 0 and w = world_sample
      and e = env_no_meteor and c = config_no_meteor and ?w1.0 = ?w1
      and name = "''accounts-base''"] c len none
  have 1: "hasMeteorPackage env_no_meteor world_sample 0 ''accounts-base''
     = Throw (TypeError ''Cannot read property path of undefined'') ?w1"
    by blast
  from hasMeteorPackage_missing_section_raises[where this = 0 and w = world_sample
      and e = env_sample and c = config_sample and ?w1.0 = ?w2
      and name = "''accounts-base''" and m = "\<lparr> meteor_path = ''../app'' \<rparr>"
      and b = "''/deploy''" and err = ENOENT] c2 len some base unreadable
  have 2: "\<exists>w2. hasMeteorPackage env_sample world_sample 0 ''accounts-base'' = Return False w2"
    by blast
  from 1 2 show ?thesis by auto
qed

section \<open>Credentials of one server\<close>






section \<open>Sessions of all servers\<close>

lemma lookup_out_of_range: "\<not> r < length h \<Longrightarrow> lookup h own r = None"
  by (simp add: lookup_def, subst lookup_owner.simps) simp

lemma lookup_assign_other:
  assumes "\<And>obj. own (f obj) = own obj" and "\<And>obj. proto (f obj) = proto obj"
  shows "lookup (heap (assign i f w)) own r = lookup (heap w) own r"
proof (cases "r < length (heap w)")
  case False
  then show ?thesis by (simp add: lookup_out_of_range)
next
  case True
  show ?thesis
  proof (cases "i < length (heap w)")
    case False
    then show ?thesis by (simp add: assign_def)
  next
    case i: True
    from True i assms show ?thesis
      by (simp add: heap_assign lookup_update_other)
  qed
qed

lemma this_sessions_store_server [simp]:
  "this_sessions (store_server this name info w) r = this_sessions w r"
  by (auto simp: store_server_def this_sessions_def lookup_assign_other split: option.splits)

lemma length_heap_store_server [simp]:
  "length (heap (store_server this name info w)) = length (heap w)"
  by (auto simp: store_server_def split: option.splits)

lemma console_store_server [simp]: "console (store_server this name info w) = console w"
  by (auto simp: store_server_def split: option.splits)

lemma length_heap_store_session [simp]:
  "length (heap (store_session this name s w)) = length (heap w)"
  by (auto simp: store_session_def split: option.splits)

lemma console_store_session [simp]: "console (store_session this name s w) = console w"
  by (auto simp: store_session_def split: option.splits)

lemma this_sessions_assigned:
  "this < length (heap w) \<Longrightarrow>
     this_sessions (assign this (own_sessions_update (\<lambda>_. Some (Some ss))) w) this = Some ss"
  by (simp add: this_sessions_def heap_assign lookup_own)

lemma this_sessions_store_session:
  "this < length (heap w) \<Longrightarrow> this_sessions w this = Some d \<Longrightarrow>
     this_sessions (store_session this name s w) this = Some (dict_store name s d)"
  by (simp add: store_session_def this_sessions_assigned)

lemma this_sessions_heap: "heap w' = heap w \<Longrightarrow> this_sessions w' r = this_sessions w r"
  by (simp add: this_sessions_def)




text \<open>The loop, when every server gets a session: the sessions are stored in order.\<close>

lemma loadLoop_loaded:
  assumes "this < length (heap w)" and "this_sessions w this = Some acc"
    and "list_all2 (\<lambda>(n, i) (n', s). n' = n \<and> (\<exists>i'. loadServer e n i = Loaded s i')) srvs new"
  shows "\<exists>w'. loadLoop e this srvs w = Return () w' \<and> length (heap w') = length (heap w)
           \<and> this_sessions w' this = Some (fold (\<lambda>(n, s). dict_store n s) new acc)
           \<and> console w' = console w"
  using assms
proof (induction srvs arbitrary: w acc new)
  case Nil
  then show ?case by simp
next
  case (Cons entry srvs)
  obtain n i where entry: "entry = (n, i)" by (cases entry)
  from Cons.prems(3) entry obtain s new' i' where new: "new = (n, s) # new'"
    and ld: "loadServer e n i = Loaded s i'"
    and rest: "list_all2 (\<lambda>(n, i) (n', s). n' = n \<and> (\<exists>i'. loadServer e n i = Loaded s i')) srvs new'"
    by (auto simp: list_all2_Cons1)
  let ?w1 = "w \<lparr> reads := reads w @ pem_reads e i \<rparr>"
  let ?w2 = "store_session this n s (store_server this n i' ?w1)"
  have h1: "this_sessions ?w1 this = Some acc"
    using Cons.prems(2) by (simp add: this_sessions_heap[of ?w1 w])
  have len: "this < length (heap (store_server this n i' ?w1))"
    using Cons.prems(1) by simp
  have s2: "this_sessions ?w2 this = Some (dict_store n s acc)"
    using this_sessions_store_session[OF len, of acc n s] h1 by simp
  have l2: "this < length (heap ?w2)" using Cons.prems(1) by simp
  from Cons.IH[OF l2 s2 rest] obtain w' where
    "loadLoop e this srvs ?w2 = Return () w'" "length (heap w') = length (heap ?w2)"
    "this_sessions w' this = Some (fold (\<lambda>(n, s). dict_store n s) new' (dict_store n s acc))"
    "console w' = console ?w2"
    by blast
  with entry ld new show ?case by (simp add: Let_def)
qed


lemma hasOwnProperty_raises_names:
  "hasOwnProperty_raises (map fst xs) \<longleftrightarrow> ''hasOwnProperty'' \<in> fst ` set xs"
  by (simp add: hasOwnProperty_raises_def)

lemma loadSessions_loaded:
  assumes "this < length (heap w)" and "getConfig e w this = Return c w0"
    and "''hasOwnProperty'' \<notin> fst ` set (servers c)"
    and "list_all2 (\<lambda>(n, i) (n', s). n' = n \<and> (\<exists>i'. loadServer e n i = Loaded s i')) (servers c) ss"
  shows "\<exists>w'. loadSessions e w this = Return () w'
            \<and> this_sessions w' this = Some (fold (\<lambda>(n, s). dict_store n s) ss empty_dict)
            \<and> length (heap w') = length (heap w) \<and> console w' = console w0"
proof -
  let ?w1 = "assign this (own_sessions_update (\<lambda>_. Some (Some empty_dict))) w0"
  from getConfig_loaded[OF assms(1,2)] have len: "this < length (heap w0)"
    and leq: "length (heap w0) = length (heap w)" using assms(1) by simp_all
  have s1: "this_sessions ?w1 this = Some empty_dict" using len by (rule this_sessions_assigned)
  have l1: "this < length (heap ?w1)" using len by simp
  from assms(3) have nr: "\<not> hasOwnProperty_raises (map fst (servers c))"
    by (simp add: hasOwnProperty_raises_names)
  from loadLoop_loaded[OF l1 s1 assms(4)] assms(2) nr leq show ?thesis
    by (auto simp: loadSessions_def Let_def)
qed






section \<open>Sessions of the requested modules\<close>

lemma listed_Nil [simp]: "listed c [] = []"
  by (simp add: listed_def List.map_filter_simps)

lemma listed_Cons [simp]:
  "listed c (m # ms)
     = (case map_of (modules c) m of None \<Rightarrow> [] | Some names \<Rightarrow> names) @ listed c ms"
  by (simp add: listed_def List.map_filter_simps split: option.split)

lemma listed_iff:
  "n \<in> set (listed c ms)
     \<longleftrightarrow> (\<exists>m \<in> set ms. \<exists>names. map_of (modules c) m = Some names \<and> n \<in> set names)"
  by (induction ms) (auto split: option.splits)

lemma pickNames_proto_name [simp]:
  "pickNames e full (''__proto__'' # names) picked
     = pickNames e full names (picked \<lparr> dict_proto := dict_proto full \<rparr>)"
  by simp

lemma pickNames_found:
  "name \<noteq> ''__proto__'' \<Longrightarrow> dict_get e full name = Some v \<Longrightarrow>
     pickNames e full (name # names) picked
       = pickNames e full names
           (picked \<lparr> dict_entries := AList.update name v (dict_entries picked) \<rparr>)"
  by simp

lemma pickNames_not_found:
  "name \<noteq> ''__proto__'' \<Longrightarrow> dict_get e full name = None \<Longrightarrow>
     pickNames e full (name # names) picked = pickNames e full names picked"
  by simp

text \<open>The own properties of the mapping that the loop over one module leaves.\<close>

lemma pickNames_keys:
  "fst ` set (dict_entries (pickNames e full names picked))
     = fst ` set (dict_entries picked)
       \<union> {n \<in> set names. n \<noteq> ''__proto__'' \<and> dict_get e full n \<noteq> None}"
proof (induction names arbitrary: picked)
  case Nil
  then show ?case by simp
next
  case (Cons name names)
  consider (proto) "name = ''__proto__''"
    | (found) v where "name \<noteq> ''__proto__''" "dict_get e full name = Some v"
    | (not_found) "name \<noteq> ''__proto__''" "dict_get e full name = None"
    by (cases "dict_get e full name") auto
  then show ?case
  proof cases
    case proto
    have "pickNames e full (name # names) picked
            = pickNames e full names (picked \<lparr> dict_proto := dict_proto full \<rparr>)"
      unfolding proto by (rule pickNames_proto_name)
    with Cons.IH[of "picked \<lparr> dict_proto := dict_proto full \<rparr>"] proto show ?thesis
      by auto
  next
    case found
    let ?p = "picked \<lparr> dict_entries := AList.update name v (dict_entries picked) \<rparr>"
    have k: "fst ` set (dict_entries ?p) = insert name (fst ` set (dict_entries picked))"
      by (simp add: AList.dom_update)
    from pickNames_found[OF found] Cons.IH[of ?p] found show ?thesis
      unfolding k by auto
  next
    case not_found
    from pickNames_not_found[OF not_found] Cons.IH[of picked] not_found show ?thesis
      by auto
  qed
qed

lemma pickNames_distinct:
  "distinct (map fst (dict_entries picked))
     \<Longrightarrow> distinct (map fst (dict_entries (pickNames e full names picked)))"
proof (induction names arbitrary: picked)
  case Nil
  then show ?case by simp
next
  case (Cons name names)
  from Cons.prems Cons.IH show ?case
    by (simp add: AList.distinct_update split: option.splits)
qed

lemma pickNames_values:
  "\<forall>n \<in> fst ` set (dict_entries picked). map_of (dict_entries picked) n = dict_get e full n \<Longrightarrow>
     \<forall>n \<in> fst ` set (dict_entries (pickNames e full names picked)).
        map_of (dict_entries (pickNames e full names picked)) n = dict_get e full n"
proof (induction names arbitrary: picked)
  case Nil
  then show ?case by simp
next
  case (Cons name names)
  consider (proto) "name = ''__proto__''"
    | (found) v where "name \<noteq> ''__proto__''" "dict_get e full name = Some v"
    | (not_found) "name \<noteq> ''__proto__''" "dict_get e full name = None"
    by (cases "dict_get e full name") auto
  then show ?case
  proof cases
    case proto
    let ?p = "picked \<lparr> dict_proto := dict_proto full \<rparr>"
    from Cons.prems have "\<forall>n \<in> fst ` set (dict_entries ?p). map_of (dict_entries ?p) n = dict_get e full n"
      by simp
    from Cons.IH[OF this] show ?thesis unfolding proto pickNames_proto_name .
  next
    case found
    let ?p = "picked \<lparr> dict_entries := AList.update name v (dict_entries picked) \<rparr>"
    have "\<forall>n \<in> fst ` set (dict_entries ?p). map_of (dict_entries ?p) n = dict_get e full n"
      using Cons.prems found(2) by (auto simp: AList.update_conv' AList.dom_update)
    from Cons.IH[OF this] show ?thesis unfolding pickNames_found[OF found] .
  next
    case not_found
    from Cons.IH[OF Cons.prems] show ?thesis unfolding pickNames_not_found[OF not_found] .
  qed
qed

lemma pickNames_proto:
  "dict_proto (pickNames e full names picked)
     = (if ''__proto__'' \<in> set names then dict_proto full else dict_proto picked)"
proof (induction names arbitrary: picked)
  case Nil
  then show ?case by simp
next
  case (Cons name names)
  show ?case
  proof (cases "name = ''__proto__''")
    case True
    show ?thesis unfolding True pickNames_proto_name
      by (simp add: Cons.IH)
  next
    case False
    then show ?thesis
      by (cases "dict_get e full name") (simp_all add: Cons.IH)
  qed
qed

text \<open>The loop over the requested modules: when it raises, and what it leaves otherwise.\<close>

lemma pickModules_Cons_Some:
  assumes "pickModules e c full (m # ms) picked = Some r"
  obtains (absent) "map_of (modules c) m = None" "pickModules e c full ms picked = Some r"
    | (present) names where "map_of (modules c) m = Some names" "''hasOwnProperty'' \<notin> set names"
        "pickModules e c full ms (pickNames e full names picked) = Some r"
  using assms
  by (cases "map_of (modules c) m") (simp_all add: hasOwnProperty_raises_def split: if_splits)


lemma pickModules_keys:
  "pickModules e c full ms picked = Some r \<Longrightarrow>
     fst ` set (dict_entries r)
       = fst ` set (dict_entries picked)
         \<union> {n \<in> set (listed c ms). n \<noteq> ''__proto__'' \<and> dict_get e full n \<noteq> None}"
proof (induction ms arbitrary: picked)
  case Nil
  then show ?case by simp
next
  case (Cons m ms)
  from Cons.prems show ?case
  proof (cases rule: pickModules_Cons_Some)
    case absent
    with Cons.IH[of picked] show ?thesis by simp
  next
    case (present names)
    with Cons.IH[of "pickNames e full names picked"] pickNames_keys[of e full names picked]
    show ?thesis by auto
  qed
qed

lemma pickModules_distinct:
  "pickModules e c full ms picked = Some r \<Longrightarrow> distinct (map fst (dict_entries picked))
     \<Longrightarrow> distinct (map fst (dict_entries r))"
proof (induction ms arbitrary: picked)
  case Nil
  then show ?case by simp
next
  case (Cons m ms)
  from Cons.prems(1) show ?case
  proof (cases rule: pickModules_Cons_Some)
    case absent
    from Cons.IH[OF absent(2) Cons.prems(2)] show ?thesis .
  next
    case (present names)
    from Cons.IH[OF present(3) pickNames_distinct[OF Cons.prems(2)]] show ?thesis .
  qed
qed

lemma pickModules_values:
  "pickModules e c full ms picked = Some r \<Longrightarrow>
     \<forall>n \<in> fst ` set (dict_entries picked). map_of (dict_entries picked) n = dict_get e full n \<Longrightarrow>
     \<forall>n \<in> fst ` set (dict_entries r). map_of (dict_entries r) n = dict_get e full n"
proof (induction ms arbitrary: picked)
  case Nil
  then show ?case by simp
next
  case (Cons m ms)
  from Cons.prems(1) show ?case
  proof (cases rule: pickModules_Cons_Some)
    case absent
    from Cons.IH[OF absent(2) Cons.prems(2)] show ?thesis .
  next
    case (present names)
    from Cons.IH[OF present(3) pickNames_values[OF Cons.prems(2)]] show ?thesis .
  qed
qed

lemma pickModules_proto:
  "pickModules e c full ms picked = Some r \<Longrightarrow>
     dict_proto r = (if ''__proto__'' \<in> set (listed c ms) then dict_proto full else dict_proto picked)"
proof (induction ms arbitrary: picked)
  case Nil
  then show ?case by simp
next
  case (Cons m ms)
  from Cons.prems show ?case
  proof (cases rule: pickModules_Cons_Some)
    case absent
    with Cons.IH[of picked] show ?thesis by simp
  next
    case (present names)
    with Cons.IH[of "pickNames e full names picked"] show ?thesis
      by (simp add: pickNames_proto)
  qed
qed


text \<open>
  When no listed name is found along the prototype chain only, a read finds what the
  session map has as its own.
\<close>

lemma dict_get_own:
  "n \<in> fst ` set (dict_entries d) \<Longrightarrow> dict_get e d n = map_of (dict_entries d) n"
proof -
  assume "n \<in> fst ` set (dict_entries d)"
  then obtain v where "map_of (dict_entries d) n = Some v"
    by (metis map_of_eq_None_iff not_Some_eq)
  then show ?thesis by (simp add: dict_get_def)
qed

lemma no_inherited_name_get:
  assumes "no_inherited_name c full ms" and "n \<in> set (listed c ms)"
  shows "(n \<noteq> ''__proto__'' \<and> dict_get e full n \<noteq> None) \<longleftrightarrow> n \<in> fst ` set (dict_entries full)"
proof
  assume a: "n \<noteq> ''__proto__'' \<and> dict_get e full n \<noteq> None"
  show "n \<in> fst ` set (dict_entries full)"
  proof (rule ccontr)
    assume out: "n \<notin> fst ` set (dict_entries full)"
    then have none: "map_of (dict_entries full) n = None" by (simp add: map_of_eq_None_iff)
    from assms(1) have p: "dict_proto full = None" by (simp add: no_inherited_name_def)
    from a none p have "n \<in> set Object_prototype_names"
      by (simp add: dict_get_def split: if_splits)
    with assms out show False by (auto simp: no_inherited_name_def)
  qed
next
  assume own: "n \<in> fst ` set (dict_entries full)"
  from assms(1) have "''__proto__'' \<notin> fst ` set (dict_entries full)"
    by (simp add: no_inherited_name_def)
  with own have "n \<noteq> ''__proto__''" by metis
  moreover from own have "map_of (dict_entries full) n \<noteq> None"
    by (simp add: map_of_eq_None_iff)
  then have "dict_get e full n \<noteq> None" using dict_get_own[OF own, of e] by simp
  ultimately show "n \<noteq> ''__proto__'' \<and> dict_get e full n \<noteq> None" by simp
qed

lemma pickModules_own_keys:
  assumes "pickModules e c full ms empty_dict = Some r" and "no_inherited_name c full ms"
  shows "fst ` set (dict_entries r) = {n \<in> set (listed c ms). n \<in> fst ` set (dict_entries full)}"
  unfolding pickModules_keys[OF assms(1)] using no_inherited_name_get[OF assms(2), of _ e]
  by (auto simp: empty_dict_def)

lemma pickModules_own_values:
  assumes "pickModules e c full ms empty_dict = Some r" and "no_inherited_name c full ms"
    and "n \<in> fst ` set (dict_entries r)"
  shows "map_of (dict_entries r) n = map_of (dict_entries full) n"
proof -
  have "\<forall>n \<in> fst ` set (dict_entries r). map_of (dict_entries r) n = dict_get e full n"
    by (rule pickModules_values[OF assms(1)]) (simp add: empty_dict_def)
  with assms(3) have "map_of (dict_entries r) n = dict_get e full n"
    by blast
  moreover from assms(3) have "n \<in> fst ` set (dict_entries full)"
    unfolding pickModules_own_keys[OF assms(1,2)] by simp
  ultimately show ?thesis by (simp add: dict_get_own)
qed

lemma pickModules_own_proto:
  assumes "pickModules e c full ms empty_dict = Some r" and "no_inherited_name c full ms"
  shows "dict_proto r = None"
  using assms(2) unfolding pickModules_proto[OF assms(1)]
  by (simp add: no_inherited_name_def empty_dict_def)





lemma pickSessions_loaded:
  "this_config w this = Some c \<Longrightarrow> this_sessions w this = Some full \<Longrightarrow>
     pickSessions e w this ms
       = (case pickModules e c full ms empty_dict of
            Some picked \<Rightarrow> Return picked w
          | None \<Rightarrow> Throw (TypeError ''moduleConfig.servers.hasOwnProperty is not a function'') w)"
  by (simp add: pickSessions_def)

lemma pickSessions_returns:
  assumes "pickSessions e w this ms = Return picked w1"
  shows "\<exists>c full. this_config w1 this = Some c \<and> this_sessions w1 this = Some full
           \<and> pickModules e c full ms empty_dict = Some picked"
  using assms
  by (auto simp: pickSessions_def split: outcome.splits option.splits if_splits)


section \<open>The lazy load, seen from \<open>_pickSessions\<close>\<close>

lemma lookup_owner_update_owner:
  assumes "lookup_owner h own r = Some (ow, v)" and "proto x = proto (h ! ow)" and "own x = Some v'"
  shows "lookup_owner (h[ow := x]) own r = Some (ow, v')"
  using assms
proof (induction h own r rule: lookup_owner.induct)
  case (1 h own r)
  from lookup_owner_le[OF "1.prems"(1)] have le: "ow \<le> r" "ow < length h" by simp_all
  from "1.prems"(1) have r: "r < length h"
    by (subst (asm) lookup_owner.simps) (simp split: if_splits)
  show ?case
  proof (cases "ow = r")
    case True
    with r "1.prems"(3) show ?thesis by (simp add: lookup_owner_own)
  next
    case False
    with "1.prems"(1) r have none: "own (h ! r) = None"
      by (subst (asm) lookup_owner.simps) (auto split: option.splits)
    with "1.prems"(1) r obtain p where p: "proto (h ! r) = Some p" "p < r"
      and rec: "lookup_owner h own p = Some (ow, v)"
      by (subst (asm) lookup_owner.simps) (auto split: option.splits if_splits)
    from "1.IH"[OF r none p rec "1.prems"(2,3)]
    have "lookup_owner (h[ow := x]) own p = Some (ow, v')" .
    with False r none p show ?thesis
      by (subst lookup_owner.simps) simp
  qed
qed

lemma this_config_store_server:
  assumes "this_config w this = Some c"
  shows "this_config (store_server this name info w) this
           = Some (c \<lparr> servers := AList.update name info (servers c) \<rparr>)"
proof -
  from assms obtain ow where ow: "lookup_owner (heap w) own_config this = Some (ow, Some c)"
    by (auto simp: this_config_def lookup_def split: option.splits)
  from lookup_owner_le[OF ow] have "ow < length (heap w)" by simp
  with ow lookup_owner_update_owner[OF ow, of
      "(heap w ! ow) \<lparr> own_config := Some (Some (c \<lparr> servers := AList.update name info (servers c) \<rparr>)) \<rparr>"
      "Some (c \<lparr> servers := AList.update name info (servers c) \<rparr>)"]
  show ?thesis
    by (simp add: store_server_def this_config_def lookup_def heap_assign)
qed

lemma this_config_store_session [simp]:
  "this_config (store_session this name s w) r = this_config w r"
  by (auto simp: store_session_def this_config_def lookup_assign_other split: option.splits)

text \<open>The loop changes the configuration object in its servers section only.\<close>

lemma loadLoop_config:
  assumes "this_config w this = Some c" and "loadLoop e this srvs w = Return () w'"
  shows "\<exists>c'. this_config w' this = Some c' \<and> modules c' = modules c \<and> meteor c' = meteor c"
  using assms
proof (induction srvs arbitrary: w c)
  case Nil
  then show ?case by simp
next
  case (Cons entry srvs)
  obtain n i where entry: "entry = (n, i)" by (cases entry)
  with Cons.prems(2) obtain s i' where ld: "loadServer e n i = Loaded s i'"
    by (cases "loadServer e n i") (simp_all add: Let_def)
  let ?w1 = "w \<lparr> reads := reads w @ pem_reads e i \<rparr>"
  let ?w2 = "store_session this n s (store_server this n i' ?w1)"
  have "this_config ?w1 this = Some c"
    using Cons.prems(1) by (simp add: this_config_heap[of ?w1 w])
  from this_config_store_server[OF this, of n i']
  have c2: "this_config ?w2 this = Some (c \<lparr> servers := AList.update n i' (servers c) \<rparr>)" by simp
  from Cons.prems(2) entry ld have "loadLoop e this srvs ?w2 = Return () w'"
    by (simp add: Let_def)
  from Cons.IH[OF c2 this] show ?case by simp
qed

lemma this_config_assign_sessions [simp]:
  "this_config (assign i (own_sessions_update f) w) r = this_config w r"
  by (simp add: this_config_def lookup_assign_other)

lemma listed_cong: "modules c' = modules c \<Longrightarrow> listed c' ms = listed c ms"
  by (simp add: listed_def)

lemma pickModules_cong:
  "modules c' = modules c \<Longrightarrow> pickModules e c' full ms picked = pickModules e c full ms picked"
  by (induction ms arbitrary: picked) (simp_all split: option.splits)

text \<open>A first call of \<open>_pickSessions\<close>, which loads the sessions.\<close>

lemma pickSessions_lazy:
  assumes "this < length (heap w)" and "this_sessions w this = None"
    and "getConfig e w this = Return c w0"
    and "''hasOwnProperty'' \<notin> fst ` set (servers c)"
    and "list_all2 (\<lambda>(n, i) (n', s). n' = n \<and> (\<exists>i'. loadServer e n i = Loaded s i')) (servers c) ss"
    and "full = fold (\<lambda>(n, s). dict_store n s) ss empty_dict"
  shows "\<exists>w' c'. pickSessions e w this ms
             = (case pickModules e c full ms empty_dict of
                  Some picked \<Rightarrow> Return picked w'
                | None \<Rightarrow>
                    Throw (TypeError ''moduleConfig.servers.hasOwnProperty is not a function'') w')
           \<and> this_sessions w' this = Some full \<and> length (heap w') = length (heap w)
           \<and> this_config w' this = Some c' \<and> modules c' = modules c"
proof -
  from loadSessions_loaded[OF assms(1,3,4,5)] obtain w' where
    l: "loadSessions e w this = Return () w'" and s: "this_sessions w' this = Some full"
    and len: "length (heap w') = length (heap w)"
    unfolding assms(6) by blast
  from getConfig_loaded[OF assms(1,3)] have "this_config w0 this = Some c" by simp
  then have c1: "this_config (assign this (own_sessions_update (\<lambda>_. Some (Some empty_dict))) w0) this
      = Some c"
    by simp
  from l assms(3,4) have "loadLoop e this (servers c)
      (assign this (own_sessions_update (\<lambda>_. Some (Some empty_dict))) w0) = Return () w'"
    by (simp add: loadSessions_def Let_def hasOwnProperty_raises_names)
  from loadLoop_config[OF c1 this] obtain c' where
    c': "this_config w' this = Some c'" "modules c' = modules c" by blast
  from l s c' assms(2) pickModules_cong[OF c'(2), of e full ms empty_dict]
  have "pickSessions e w this ms
             = (case pickModules e c full ms empty_dict of
                  Some picked \<Rightarrow> Return picked w'
                | None \<Rightarrow>
                    Throw (TypeError ''moduleConfig.servers.hasOwnProperty is not a function'') w')"
    by (simp add: pickSessions_def)
  with s len c' show ?thesis by blast
qed


lemma odd_names_servers_loaded:
  "list_all2 (\<lambda>(n, i) (n', s). n' = n \<and> (\<exists>i'. loadServer env_odd_names n i = Loaded s i'))
      (servers config_odd_names) [(''2'', session_C), (''10'', session_B), (''A'', session_A)]"
proof -
  have "loadServer env_odd_names ''A'' server_A = Loaded session_A server_A"
    by (simp add: loadServer_def server_A_def session_A_def env_odd_names_def env_sample_def
        truthy_value_def)
  moreover have "loadServer env_odd_names ''10'' server_B = Loaded session_B server_B"
    by (simp add: loadServer_def server_B_def session_B_def env_odd_names_def env_sample_def
        truthy_value_def)
  moreover have "loadServer env_odd_names ''2'' server_C
      = Loaded session_C (server_C \<lparr> opts := Some (session_ssh session_C) \<rparr>)"
    by (simp add: loadServer_def server_C_def session_C_def env_odd_names_def env_sample_def
        truthy_value_def agent_socket_def getenv_def Let_def)
  ultimately show ?thesis by (simp add: config_odd_names_def)
qed


lemma full_odd_names_stored:
  "full_odd_names = fold (\<lambda>(n, s). dict_store n s)
      [(''2'', session_C), (''10'', session_B), (''A'', session_A)] empty_dict"
  by (simp add: full_odd_names_def dict_store_def empty_dict_def)




lemma odd_names_picked:
  "pickModules env_odd_names config_odd_names full_odd_names [''X''] empty_dict
     = Some \<lparr> dict_entries = [(''A'', Session session_A),
                                (''constructor'', Inherited ''constructor'')],
              dict_proto = None \<rparr>"
  "pickModules env_odd_names config_odd_names full_odd_names [''Y''] empty_dict
     = Some \<lparr> dict_entries = [(''10'', Session session_B), (''A'', Session session_A)],
              dict_proto = None \<rparr>"
  "pickModules env_odd_names config_odd_names full_odd_names [''Y'', ''Z''] empty_dict
     = Some \<lparr> dict_entries = [(''10'', Session session_B), (''A'', Session session_A),
                                (''2'', Session session_C)],
              dict_proto = None \<rparr>"
  by (simp_all add: config_odd_names_def full_odd_names_def dict_get_def empty_dict_def
      Object_prototype_names_def hasOwnProperty_raises_def)




section \<open>Scoped views\<close>

lemma kept_above_refl [simp]: "kept_above this w w"
  by (simp add: kept_above_def)

lemma kept_above_heap: "heap w' = heap w \<Longrightarrow> kept_above this w w'"
  by (simp add: kept_above_def)

lemma kept_above_trans:
  "kept_above this w w' \<Longrightarrow> kept_above this w' w'' \<Longrightarrow> kept_above this w w''"
  by (simp add: kept_above_def)

lemma kept_above_assign: "i \<le> this \<Longrightarrow> kept_above this w (assign i f w)"
  by (simp add: kept_above_def heap_assign)

lemma kept_above_store_session: "kept_above this w (store_session this name s w)"
  by (auto simp: store_session_def kept_above_assign split: option.splits)

lemma kept_above_store_server: "kept_above this w (store_server this name info w)"
proof (cases "lookup_owner (heap w) own_config this")
  case None
  then show ?thesis by (simp add: store_server_def)
next
  case (Some found)
  obtain ow v where found: "found = (ow, v)" by (cases found)
  with Some lookup_owner_le[of "heap w" own_config this ow v] have "ow \<le> this" by simp
  with Some found show ?thesis
    by (cases v) (simp_all add: store_server_def kept_above_assign)
qed

lemma kept_above_getConfig:
  assumes "getConfig e w this = Return c w1"
  shows "kept_above this w w1"
proof (cases "this_config w this")
  case (Some c0)
  with assms show ?thesis by (simp add: getConfig_def)
next
  case None
  with assms obtain fp w0 where cf: "config_file e w this = Some (fp, w0)"
    and w1: "heap w1 = heap (assign this (own_config_update (\<lambda>_. Some (Some c))) (note_read fp w0))"
    by (auto simp: getConfig_def split: option.splits sum.splits require_error.splits)
  from cf have k0: "kept_above this w w0"
    by (auto simp: config_file_def kept_above_assign split: option.splits)
  have "kept_above this w0 (assign this (own_config_update (\<lambda>_. Some (Some c))) (note_read fp w0))"
    by (simp add: kept_above_def heap_assign)
  then have "kept_above this w0 w1"
    using w1 by (simp add: kept_above_def)
  with k0 show ?thesis by (rule kept_above_trans)
qed

lemma kept_above_loadLoop:
  "loadLoop e this srvs w = Return () w' \<Longrightarrow> kept_above this w w'"
proof (induction srvs arbitrary: w)
  case Nil
  then show ?case by simp
next
  case (Cons entry srvs)
  obtain n i where entry: "entry = (n, i)" by (cases entry)
  with Cons.prems obtain s i' where ld: "loadServer e n i = Loaded s i'"
    by (cases "loadServer e n i") (simp_all add: Let_def)
  let ?w1 = "w \<lparr> reads := reads w @ pem_reads e i \<rparr>"
  let ?w2 = "store_server this n i' ?w1"
  let ?w3 = "store_session this n s ?w2"
  from Cons.prems entry ld have "loadLoop e this srvs ?w3 = Return () w'"
    by (simp add: Let_def)
  from Cons.IH[OF this] have k3: "kept_above this ?w3 w'" .
  have "kept_above this w ?w1" by (simp add: kept_above_heap)
  moreover have "kept_above this ?w1 ?w2" by (rule kept_above_store_server)
  moreover have "kept_above this ?w2 ?w3" by (rule kept_above_store_session)
  ultimately show ?case using k3 by (blast intro: kept_above_trans)
qed

lemma kept_above_loadSessions:
  assumes "loadSessions e w this = Return () w'"
  shows "kept_above this w w'"
proof -
  from assms obtain c w0 where c: "getConfig e w this = Return c w0"
    and l: "loadLoop e this (servers c)
              (assign this (own_sessions_update (\<lambda>_. Some (Some empty_dict))) w0)
            = Return () w'"
    by (auto simp: loadSessions_def Let_def split: outcome.splits if_splits)
  from kept_above_getConfig[OF c] kept_above_assign[of this this w0] kept_above_loadLoop[OF l]
  show ?thesis by (blast intro: kept_above_trans)
qed

lemma kept_above_pickSessions:
  assumes "pickSessions e w this ms = Return picked w'"
  shows "kept_above this w w'"
proof (cases "this_sessions w this")
  case None
  with assms obtain u where "loadSessions e w this = Return u w'"
    by (auto simp: pickSessions_def split: outcome.splits option.splits)
  then show ?thesis using kept_above_loadSessions by simp
next
  case (Some full)
  with assms have "w' = w"
    by (auto simp: pickSessions_def split: option.splits)
  then show ?thesis by simp
qed

text \<open>What \<open>withSessions\<close> returns, and the state it leaves.\<close>

lemma withSessions_returns:
  assumes "this < length (heap w)" and "withSessions e w this ms = Return api w1"
  shows "\<exists>c full picked. api = length (heap w) \<and> length (heap w1) = Suc (length (heap w))
           \<and> this_config w1 this = Some c \<and> this_sessions w1 this = Some full
           \<and> pickModules e c full ms empty_dict = Some picked
           \<and> heap w1 ! api = scoped_view this picked"
proof -
  let ?w0 = "w \<lparr> heap := heap w @ [Object_create this] \<rparr>"
  from assms(2) obtain picked w' where p: "pickSessions e ?w0 this ms = Return picked w'"
    and api: "api = length (heap w)"
    and w1: "w1 = assign api (own_sessions_update (\<lambda>_. Some (Some picked))) w'"
    by (auto simp: withSessions_def Let_def split: outcome.splits)
  from pickSessions_returns[OF p] obtain c full where
    c: "this_config w' this = Some c" and f: "this_sessions w' this = Some full"
    and pk: "pickModules e c full ms empty_dict = Some picked" by blast
  from kept_above_pickSessions[OF p] assms(1)
  have len: "length (heap w') = Suc (length (heap w))"
    and blank: "heap w' ! length (heap w) = Object_create this"
    by (simp_all add: kept_above_def)
  have c1: "this_config w1 this = Some c"
    unfolding w1 using c by simp
  have "lookup (heap w1) own_sessions this = lookup (heap w') own_sessions this"
    unfolding w1 api using assms(1) len by (simp add: heap_assign lookup_update_above)
  with f have f1: "this_sessions w1 this = Some full" by (simp add: this_sessions_def)
  have "heap w1 ! api = scoped_view this picked"
    unfolding w1 api using len blank by (simp add: heap_assign scoped_view_def)
  with api len c1 f1 pk show ?thesis unfolding w1 by simp
qed

text \<open>
  A call of \<open>withSessions\<close> after the sessions have been loaded only adds the view, or
  raises and leaves the object it has made without sessions of its own.
\<close>

lemma withSessions_loaded:
  assumes "this < length (heap w)" and "this_config w this = Some c"
    and "this_sessions w this = Some full"
  shows "withSessions e w this ms
           = (case pickModules e c full ms empty_dict of
                Some picked \<Rightarrow>
                  Return (length (heap w)) (w \<lparr> heap := heap w @ [scoped_view this picked] \<rparr>)
              | None \<Rightarrow>
                  Throw (TypeError ''moduleConfig.servers.hasOwnProperty is not a function'')
                    (w \<lparr> heap := heap w @ [Object_create this] \<rparr>))"
proof -
  let ?w0 = "w \<lparr> heap := heap w @ [Object_create this] \<rparr>"
  from assms have "this_config ?w0 this = Some c" "this_sessions ?w0 this = Some full"
    by (simp_all add: this_config_def this_sessions_def lookup_append)
  from pickSessions_loaded[OF this, of e ms] show ?thesis
    by (cases "pickModules e c full ms empty_dict")
      (simp_all add: withSessions_def Let_def assign_def scoped_view_def)
qed

lemma loaded_with_view:
  assumes "this < length (heap w)" and "this_config w this = Some c"
    and "this_sessions w this = Some full"
  shows "this < length (heap (w \<lparr> heap := heap w @ views \<rparr>))"
    and "this_config (w \<lparr> heap := heap w @ views \<rparr>) this = Some c"
    and "this_sessions (w \<lparr> heap := heap w @ views \<rparr>) this = Some full"
  using assms by (simp_all add: this_config_def this_sessions_def lookup_append)

lemma withSessions_all_loaded:
  assumes "list_all2 (\<lambda>ms p. pickModules e c full ms empty_dict = Some p) mss ps"
    and "this < length (heap w)" and "this_config w this = Some c"
    and "this_sessions w this = Some full"
  shows "withSessions_all e w this mss
           = Return [length (heap w) ..< length (heap w) + length mss]
               (w \<lparr> heap := heap w @ map (scoped_view this) ps \<rparr>)"
  using assms
proof (induction arbitrary: w rule: list_all2_induct)
  case Nil
  then show ?case by simp
next
  case (Cons ms mss p ps)
  let ?w1 = "w \<lparr> heap := heap w @ [scoped_view this p] \<rparr>"
  have u: "[length (heap w) ..< Suc (length (heap w) + length mss)]
      = length (heap w) # [Suc (length (heap w)) ..< Suc (length (heap w) + length mss)]"
    by (simp add: upt_conv_Cons del: upt_Suc)
  from Cons.IH[OF loaded_with_view[OF Cons.prems, of "[scoped_view this p]"]]
    withSessions_loaded[OF Cons.prems, of e ms] Cons.hyps(1)
  show ?case by (simp add: u del: upt_Suc)
qed

lemma withSessions_all_returns:
  assumes "withSessions_all e w this mss = Return apis w2"
    and "this < length (heap w)" and "this_config w this = Some c"
    and "this_sessions w this = Some full"
  shows "\<exists>ps. list_all2 (\<lambda>ms p. pickModules e c full ms empty_dict = Some p) mss ps
           \<and> apis = [length (heap w) ..< length (heap w) + length mss]
           \<and> w2 = w \<lparr> heap := heap w @ map (scoped_view this) ps \<rparr>"
  using assms
proof (induction mss arbitrary: w apis)
  case Nil
  then show ?case by simp
next
  case (Cons ms mss)
  note first = withSessions_loaded[OF Cons.prems(2-4), of e ms]
  show ?case
  proof (cases "pickModules e c full ms empty_dict")
    case None
    with first Cons.prems(1) show ?thesis by simp
  next
    case (Some p)
    let ?w1 = "w \<lparr> heap := heap w @ [scoped_view this p] \<rparr>"
    from first Some have f: "withSessions e w this ms = Return (length (heap w)) ?w1" by simp
    with Cons.prems(1) obtain apis' where
      rest: "withSessions_all e ?w1 this mss = Return apis' w2"
      and apis: "apis = length (heap w) # apis'"
      by (auto split: outcome.splits)
    from Cons.IH[OF rest loaded_with_view[OF Cons.prems(2-4), of "[scoped_view this p]"]]
    obtain ps where ps: "list_all2 (\<lambda>ms p. pickModules e c full ms empty_dict = Some p) mss ps"
      and apis': "apis' = [length (heap ?w1) ..< length (heap ?w1) + length mss]"
      and w2: "w2 = ?w1 \<lparr> heap := heap ?w1 @ map (scoped_view this) ps \<rparr>"
      by blast
    have u: "[length (heap w) ..< Suc (length (heap w) + length mss)]
        = length (heap w) # [Suc (length (heap w)) ..< Suc (length (heap w) + length mss)]"
      by (simp add: upt_conv_Cons del: upt_Suc)
    from ps Some have "list_all2 (\<lambda>ms p. pickModules e c full ms empty_dict = Some p)
        (ms # mss) (p # ps)" by simp
    moreover from apis apis' have "apis = [length (heap w) ..< length (heap w) + length (ms # mss)]"
      by (simp add: u del: upt_Suc)
    moreover from w2 have "w2 = w \<lparr> heap := heap w @ map (scoped_view this) (p # ps) \<rparr>"
      by simp
    ultimately show ?thesis by blast
  qed
qed

text \<open>
  When no listed name is found along the prototype chain only, what is picked is a part
  of the session map. A listed name that names a member of \<open>Object.prototype\<close> and no
  server is picked with that member.
\<close>

lemma pickModules_own_subset:
  assumes "pickModules e c full ms empty_dict = Some r" and "no_inherited_name c full ms"
  shows "set (dict_entries r) \<subseteq> set (dict_entries full)"
proof
  fix entry
  assume a: "entry \<in> set (dict_entries r)"
  obtain n v where entry: "entry = (n, v)" by (cases entry)
  have "distinct (map fst (dict_entries r))"
    by (rule pickModules_distinct[OF assms(1)]) (simp add: empty_dict_def)
  with a entry have "map_of (dict_entries r) n = Some v"
    by simp
  moreover from a entry have "n \<in> fst ` set (dict_entries r)"
    by force
  ultimately have "map_of (dict_entries full) n = Some v"
    using pickModules_own_values[OF assms, of n] by simp
  then show "entry \<in> set (dict_entries full)"
    unfolding entry by (rule map_of_SomeD)
qed

lemma pickModules_inherited:
  assumes "pickModules e c full ms empty_dict = Some r"
    and "n \<in> set (listed c ms) \<inter> set Object_prototype_names"
    and "dict_proto full = None" and "n \<notin> fst ` set (dict_entries full)"
  shows "map_of (dict_entries r) n = Some (Inherited n)"
proof -
  from assms(4) have "map_of (dict_entries full) n = None" by (simp add: map_of_eq_None_iff)
  with assms(2,3) have g: "dict_get e full n = Some (Inherited n)" by (simp add: dict_get_def)
  from assms(2) have np: "n \<noteq> ''__proto__''" by (auto simp: Object_prototype_names_def)
  from assms(2) np g have k: "n \<in> fst ` set (dict_entries r)"
    unfolding pickModules_keys[OF assms(1)] by simp
  have vals: "\<forall>n \<in> fst ` set (dict_entries r). map_of (dict_entries r) n = dict_get e full n"
    by (rule pickModules_values[OF assms(1)]) (simp add: empty_dict_def)
  from bspec[OF vals k] g show ?thesis by simp
qed

text \<open>
  Claim C4, as the code has it. Let \<open>withSessions\<close> be called on a resolver \<open>this\<close>, returning
  the view \<open>api\<close> in state \<open>w1\<close> (this call loads the sessions if they were not loaded), and
  then any number of times more, returning the views \<open>apis\<close> in state \<open>w2\<close>. Then:
  \<^item> the session map of \<open>this\<close> in \<open>w2\<close> is the one it had in \<open>w1\<close>, and every object of \<open>w1\<close>,
    the resolver and the first view among them, is unchanged in \<open>w2\<close>;
  \<^item> every view is a new object, and its sessions are the mapping \<open>_pickSessions\<close> makes
    from the session map of \<open>this\<close> for the modules of its call, each view keeping its own;
  \<^item> that mapping is a part of the session map of \<open>this\<close> when no name the modules list is
    found by a read on the session map without being a server name in it; a listed name
    such as \<open>constructor\<close>, found on \<open>Object.prototype\<close> and not in the session map, is in
    the mapping with what was found;
  \<^item> every other field read on a view (base path, arguments, configuration, settings,
    the two paths, the verbose flag) is the field of \<open>this\<close>.
\<close>

theorem withSessions_scoped_views:
  assumes "this < length (heap w)"
    and "withSessions e w this ms = Return api w1"
    and "withSessions_all e w1 this mss = Return apis w2"
  shows "\<exists>c full.
      this_config w1 this = Some c \<and> this_sessions w1 this = Some full
    \<and> this_sessions w2 this = Some full
    \<and> (\<forall>j < length (heap w1). heap w2 ! j = heap w1 ! j)
    \<and> api = length (heap w)
    \<and> apis = [length (heap w1) ..< length (heap w1) + length mss]
    \<and> this_sessions w2 api = pickModules e c full ms empty_dict
    \<and> (\<forall>k < length mss.
          this_sessions w2 (apis ! k) = pickModules e c full (mss ! k) empty_dict)
    \<and> (\<forall>ms' \<in> set (ms # mss). \<exists>picked.
          pickModules e c full ms' empty_dict = Some picked
        \<and> (no_inherited_name c full ms' \<longrightarrow>
             set (dict_entries picked) \<subseteq> set (dict_entries full) \<and> dict_proto picked = None)
        \<and> (\<forall>n \<in> set (listed c ms') \<inter> set Object_prototype_names.
             dict_proto full = None \<and> n \<notin> fst ` set (dict_entries full) \<longrightarrow>
             map_of (dict_entries picked) n = Some (Inherited n)))
    \<and> (\<forall>v \<in> set (api # apis).
          this_base w2 v = this_base w2 this
        \<and> this_args w2 v = this_args w2 this
        \<and> this_config w2 v = this_config w2 this
        \<and> this_settings w2 v = this_settings w2 this
        \<and> this_configPath w2 v = this_configPath w2 this
        \<and> this_settingsPath w2 v = this_settingsPath w2 this
        \<and> this_verbose w2 v = this_verbose w2 this)"
proof -
  from withSessions_returns[OF assms(1,2)] obtain c full picked where
    api: "api = length (heap w)" and len1: "length (heap w1) = Suc (length (heap w))"
    and c: "this_config w1 this = Some c" and f: "this_sessions w1 this = Some full"
    and pk: "pickModules e c full ms empty_dict = Some picked"
    and first: "heap w1 ! api = scoped_view this picked"
    by blast
  from assms(1) len1 have this1: "this < length (heap w1)" by simp
  from withSessions_all_returns[OF assms(3) this1 c f] obtain ps where
    ps: "list_all2 (\<lambda>ms p. pickModules e c full ms empty_dict = Some p) mss ps"
    and apis: "apis = [length (heap w1) ..< length (heap w1) + length mss]"
    and w2: "w2 = w1 \<lparr> heap := heap w1 @ map (scoped_view this) ps \<rparr>"
    by blast
  from ps have lps: "length ps = length mss" by (simp add: list_all2_lengthD)
  have h2: "heap w2 = heap w1 @ map (scoped_view this) ps" by (simp add: w2)
  have kept: "\<forall>j < length (heap w1). heap w2 ! j = heap w1 ! j"
    by (simp add: h2 nth_append)
  have f2: "this_sessions w2 this = Some full"
    using f this1 by (simp add: this_sessions_def h2 lookup_append)
  have len2: "length (heap w2) = length (heap w1) + length mss" by (simp add: h2 lps)
  have api_lt: "this < api" "api < length (heap w2)"
    using assms(1) api len1 len2 by simp_all
  have first2: "heap w2 ! api = scoped_view this picked"
    using first kept api len1 by simp
  have later: "heap w2 ! (apis ! k) = scoped_view this (ps ! k)
               \<and> this < apis ! k \<and> apis ! k < length (heap w2)
               \<and> pickModules e c full (mss ! k) empty_dict = Some (ps ! k)"
    if "k < length mss" for k
    using that this1 list_all2_nthD[OF ps that] by (simp add: apis h2 len2 lps nth_append)
  have s_first: "this_sessions w2 api = pickModules e c full ms empty_dict"
    using view_reads(1)[OF first2 api_lt] pk by simp
  have s_later: "\<forall>k < length mss.
      this_sessions w2 (apis ! k) = pickModules e c full (mss ! k) empty_dict"
  proof (intro allI impI)
    fix k
    assume "k < length mss"
    from later[OF this] view_reads(1)[of w2 "apis ! k" this "ps ! k"]
    show "this_sessions w2 (apis ! k) = pickModules e c full (mss ! k) empty_dict"
      by simp
  qed
  have part: "\<exists>picked. pickModules e c full ms' empty_dict = Some picked
        \<and> (no_inherited_name c full ms' \<longrightarrow>
             set (dict_entries picked) \<subseteq> set (dict_entries full) \<and> dict_proto picked = None)
        \<and> (\<forall>n \<in> set (listed c ms') \<inter> set Object_prototype_names.
             dict_proto full = None \<and> n \<notin> fst ` set (dict_entries full) \<longrightarrow>
             map_of (dict_entries picked) n = Some (Inherited n))"
    if "ms' \<in> set (ms # mss)" for ms'
  proof -
    have "\<exists>p. pickModules e c full ms' empty_dict = Some p"
    proof (cases "ms' = ms")
      case True
      with pk show ?thesis by simp
    next
      case False
      with that have "ms' \<in> set mss" by simp
      then obtain k where "k < length mss" "ms' = mss ! k" by (auto simp: in_set_conv_nth)
      with later[of k] show ?thesis by simp
    qed
    then obtain p where p: "pickModules e c full ms' empty_dict = Some p" by blast
    have "no_inherited_name c full ms' \<longrightarrow>
             set (dict_entries p) \<subseteq> set (dict_entries full) \<and> dict_proto p = None"
      using pickModules_own_subset[OF p] pickModules_own_proto[OF p] by blast
    moreover have "\<forall>n \<in> set (listed c ms') \<inter> set Object_prototype_names.
             dict_proto full = None \<and> n \<notin> fst ` set (dict_entries full) \<longrightarrow>
             map_of (dict_entries p) n = Some (Inherited n)"
      using pickModules_inherited[OF p] by blast
    ultimately show ?thesis using p by blast
  qed
  have shared: "this_base w2 v = this_base w2 this
        \<and> this_args w2 v = this_args w2 this
        \<and> this_config w2 v = this_config w2 this
        \<and> this_settings w2 v = this_settings w2 this
        \<and> this_configPath w2 v = this_configPath w2 this
        \<and> this_settingsPath w2 v = this_settingsPath w2 this
        \<and> this_verbose w2 v = this_verbose w2 this" if "v \<in> set (api # apis)" for v
  proof -
    note v_in = that
    have "\<exists>picked. heap w2 ! v = scoped_view this picked \<and> this < v \<and> v < length (heap w2)"
    proof (cases "v = api")
      case True
      with first2 api_lt show ?thesis by blast
    next
      case False
      with v_in have "v \<in> set apis" by simp
      then obtain k where "k < length apis" "v = apis ! k" by (auto simp: in_set_conv_nth)
      moreover have "length apis = length mss" by (simp add: apis)
      ultimately show ?thesis using later[of k] by auto
    qed
    then obtain picked where "heap w2 ! v = scoped_view this picked" "this < v"
      "v < length (heap w2)" by blast
    from view_reads(2-8)[OF this] show ?thesis by simp
  qed
  from c f f2 kept api apis s_first s_later part shared show ?thesis by blast
qed

text \<open>
  Three views made on the resolver of the configuration with servers \<open>2\<close>, \<open>10\<close> and \<open>A\<close>, for
  module \<open>X\<close>, for module \<open>Y\<close>, and for \<open>Y\<close> and \<open>Z\<close>: the resolver keeps the three sessions, each
  view has its own mapping, and the base path read on a view is the one of the resolver.
  The views for \<open>Y\<close> and for \<open>Y\<close> and \<open>Z\<close> hold sessions of the resolver. The view for \<open>X\<close>,
  which lists \<open>A\<close> and \<open>constructor\<close>, holds the session of \<open>A\<close> and, under \<open>constructor\<close>, the
  member of \<open>Object.prototype\<close> of that name, which is not in the session map.
\<close>

theorem withSessions_scoped_views_witness:
  "\<exists>w1 w2.
      withSessions env_odd_names world_sample 0 [''X''] = Return 1 w1
    \<and> withSessions_all env_odd_names w1 0 [[''Y''], [''Y'', ''Z'']] = Return [2, 3] w2
    \<and> this_sessions w1 0 = Some full_odd_names
    \<and> this_sessions w2 0 = Some full_odd_names
    \<and> this_sessions w2 1
        = Some \<lparr> dict_entries = [(''A'', Session session_A),
                                  (''constructor'', Inherited ''constructor'')],
                 dict_proto = None \<rparr>
    \<and> map_of [(''A'', Session session_A), (''constructor'', Inherited ''constructor'')]
        ''constructor'' = Some (Inherited ''constructor'')
    \<and> ''constructor'' \<notin> fst ` set (dict_entries full_odd_names)
    \<and> this_sessions w2 2
        = Some \<lparr> dict_entries = [(''10'', Session session_B), (''A'', Session session_A)],
                 dict_proto = None \<rparr>
    \<and> set [(''10'', Session session_B), (''A'', Session session_A)]
        \<subseteq> set (dict_entries full_odd_names)
    \<and> this_sessions w2 3
        = Some \<lparr> dict_entries = [(''10'', Session session_B), (''A'', Session session_A),
                                  (''2'', Session session_C)],
                 dict_proto = None \<rparr>
    \<and> this_base w2 1 = this_base w2 0 \<and> this_config w2 3 = this_config w2 0"
proof -
  let ?w0 = "world_sample \<lparr> heap := heap world_sample @ [Object_create 0] \<rparr>"
  let ?wc = "final_world (getConfig env_odd_names ?w0 0)"
  let ?pX = "\<lparr> dict_entries = [(''A'', Session session_A),
                               (''constructor'', Inherited ''constructor'')],
               dict_proto = None \<rparr>"
  let ?pY = "\<lparr> dict_entries = [(''10'', Session session_B), (''A'', Session session_A)],
               dict_proto = None \<rparr>"
  let ?pYZ = "\<lparr> dict_entries = [(''10'', Session session_B), (''A'', Session session_A),
                                (''2'', Session session_C)],
                dict_proto = None \<rparr>"
  have hs: "length (heap world_sample) = 1" by code_simp
  have len0: "0 < length (heap ?w0)" by simp
  have none: "this_sessions ?w0 0 = None" by code_simp
  have "returned (getConfig env_odd_names ?w0 0) = Some config_odd_names" by code_simp
  then have c: "getConfig env_odd_names ?w0 0 = Return config_odd_names ?wc"
    by (rule returned_final)
  have nh: "''hasOwnProperty'' \<notin> fst ` set (servers config_odd_names)"
    by (simp add: config_odd_names_def)
  from pickSessions_lazy[OF len0 none c nh odd_names_servers_loaded full_odd_names_stored,
      of "[''X'']"]
  obtain w' c' where p: "pickSessions env_odd_names ?w0 0 [''X''] = Return ?pX w'"
    and f': "this_sessions w' 0 = Some full_odd_names"
    and c': "this_config w' 0 = Some c'" and m: "modules c' = modules config_odd_names"
    unfolding odd_names_picked option.case by blast
  let ?w1 = "assign 1 (own_sessions_update (\<lambda>_. Some (Some ?pX))) w'"
  have first: "withSessions env_odd_names world_sample 0 [''X''] = Return 1 ?w1"
    using p hs by (simp add: withSessions_def Let_def)
  have len: "0 < length (heap world_sample)" using hs by simp
  from withSessions_returns[OF len first] obtain c1 full1 where
    l1: "length (heap ?w1) = 2" and c1: "this_config ?w1 0 = Some c1"
    and f1: "this_sessions ?w1 0 = Some full1"
    using hs by auto
  from c1 c' have cc: "c1 = c'" by simp
  have "kept_above 0 ?w0 w'" using p by (rule kept_above_pickSessions)
  then have lw': "length (heap w') = 2" using hs by (simp add: kept_above_def)
  have "lookup (heap ?w1) own_sessions 0 = lookup (heap w') own_sessions 0"
    using lw' by (simp add: heap_assign lookup_update_above)
  with f' f1 have ff: "full1 = full_odd_names" by (simp add: this_sessions_def)
  have this1: "0 < length (heap ?w1)" using l1 by simp
  have x: "pickModules env_odd_names c' full_odd_names [''X''] empty_dict = Some ?pX"
    unfolding pickModules_cong[OF m] by (rule odd_names_picked)
  have y: "pickModules env_odd_names c' full_odd_names [''Y''] empty_dict = Some ?pY"
    unfolding pickModules_cong[OF m] by (rule odd_names_picked)
  have yz: "pickModules env_odd_names c' full_odd_names [''Y'', ''Z''] empty_dict = Some ?pYZ"
    unfolding pickModules_cong[OF m] by (rule odd_names_picked)
  have all: "list_all2 (\<lambda>ms p. pickModules env_odd_names c1 full1 ms empty_dict = Some p)
      [[''Y''], [''Y'', ''Z'']] [?pY, ?pYZ]"
    unfolding cc ff using y yz by (simp del: pickModules.simps)
  from withSessions_all_loaded[OF all this1 c1 f1] l1
  obtain w2 where rest:
    "withSessions_all env_odd_names ?w1 0 [[''Y''], [''Y'', ''Z'']] = Return [2, 3] w2"
    by (simp add: upt_rec)
  from withSessions_scoped_views[OF len first rest] obtain c2 full2 where
    r0: "this_config ?w1 0 = Some c2" "this_sessions ?w1 0 = Some full2"
    and r1: "this_sessions w2 0 = Some full2"
    and r2: "this_sessions w2 1 = pickModules env_odd_names c2 full2 [''X''] empty_dict"
    and r3: "\<forall>k < length [[''Y''], [''Y'', ''Z'']].
      this_sessions w2 ([2, 3] ! k)
        = pickModules env_odd_names c2 full2 ([[''Y''], [''Y'', ''Z'']] ! k) empty_dict"
    and r4: "\<forall>ms' \<in> set ([''X''] # [[''Y''], [''Y'', ''Z'']]). \<exists>picked.
          pickModules env_odd_names c2 full2 ms' empty_dict = Some picked
        \<and> (no_inherited_name c2 full2 ms' \<longrightarrow>
             set (dict_entries picked) \<subseteq> set (dict_entries full2) \<and> dict_proto picked = None)
        \<and> (\<forall>n \<in> set (listed c2 ms') \<inter> set Object_prototype_names.
             dict_proto full2 = None \<and> n \<notin> fst ` set (dict_entries full2) \<longrightarrow>
             map_of (dict_entries picked) n = Some (Inherited n))"
    and r5: "\<forall>v \<in> set (1 # [2, 3]). this_base w2 v = this_base w2 0
        \<and> this_args w2 v = this_args w2 0
        \<and> this_config w2 v = this_config w2 0
        \<and> this_settings w2 v = this_settings w2 0
        \<and> this_configPath w2 v = this_configPath w2 0
        \<and> this_settingsPath w2 v = this_settingsPath w2 0
        \<and> this_verbose w2 v = this_verbose w2 0"
    by (elim exE conjE) (rule that; assumption)
  from r0 c1 f1 cc ff have eq: "c2 = c'" "full2 = full_odd_names" by simp_all
  have s0: "this_sessions w2 0 = Some full_odd_names" using r1 eq by simp
  have s1: "this_sessions w2 1 = Some ?pX" using r2 unfolding eq x .
  have s2: "this_sessions w2 2 = Some ?pY"
    using r3[rule_format, of 0] unfolding eq by (simp add: y del: pickModules.simps)
  have s3: "this_sessions w2 3 = Some ?pYZ"
    using r3[rule_format, of 1] unfolding eq by (simp add: yz del: pickModules.simps)
  have lY: "listed c' [''Y''] = [''10'', ''A'']" "listed c' [''X''] = [''A'', ''constructor'']"
    unfolding listed_cong[OF m] by (simp_all add: config_odd_names_def)
  have hY: "no_inherited_name c' full_odd_names [''Y'']"
    unfolding no_inherited_name_def lY
    by (simp add: full_odd_names_def Object_prototype_names_def)
  from r4 obtain pY where
    "pickModules env_odd_names c2 full2 [''Y''] empty_dict = Some pY"
    "no_inherited_name c2 full2 [''Y''] \<longrightarrow>
       set (dict_entries pY) \<subseteq> set (dict_entries full2) \<and> dict_proto pY = None"
    by (auto simp del: pickModules.simps listed_Cons)
  with hY have sub: "set [(''10'', Session session_B), (''A'', Session session_A)]
        \<subseteq> set (dict_entries full_odd_names)"
    unfolding eq y by auto
  have out: "''constructor'' \<notin> fst ` set (dict_entries full_odd_names)"
    "dict_proto full_odd_names = None"
    by (simp_all add: full_odd_names_def)
  have inh: "''constructor'' \<in> set (listed c' [''X'']) \<inter> set Object_prototype_names"
    unfolding lY by (simp add: Object_prototype_names_def)
  from r4 obtain pX where
    "pickModules env_odd_names c2 full2 [''X''] empty_dict = Some pX"
    "\<forall>n \<in> set (listed c2 [''X'']) \<inter> set Object_prototype_names.
       dict_proto full2 = None \<and> n \<notin> fst ` set (dict_entries full2) \<longrightarrow>
       map_of (dict_entries pX) n = Some (Inherited n)"
    by (auto simp del: pickModules.simps listed_Cons)
  with inh out have got: "map_of [(''A'', Session session_A),
        (''constructor'', Inherited ''constructor'')] ''constructor''
      = Some (Inherited ''constructor'')"
    unfolding eq x by auto
  from r5 have sh: "this_base w2 1 = this_base w2 0" "this_config w2 3 = this_config w2 0"
    by simp_all
  from f1 ff have f1': "this_sessions ?w1 0 = Some full_odd_names" by simp
  from first rest f1' s0 s1 got out(1) s2 sub s3 sh show ?thesis by blast
qed

end
